theory Spec2Isabelle
  imports Complex_Main "HOL-Library.AList" "HOL-Library.Multiset" "HOL-Library.Word"
begin

section \<open>Values\<close>

text \<open>
  A float64, by its IEEE 754 classes: \<open>Fin x\<close> is the finite double of value \<open>x\<close>
  (\<open>Fin 0\<close> is \<open>+0.0\<close>), \<open>NZero\<close> is \<open>-0.0\<close>, \<open>PInf\<close> and \<open>NInf\<close> are the infinities, and
  \<open>NaN\<close> is what pandas uses as the missing-value marker of a numeric column.
\<close>

datatype fval = Fin real | NZero | PInf | NInf | NaN

text \<open>
  A cell of a numeric column: pandas keeps a column as int64 when all of its cells are
  whole numbers, and as float64 otherwise.
\<close>

datatype num = Int64 "64 word" | Float64 fval

text \<open>
  A field of a provider record, as the JSON decoder delivers it: a whole number (taken
  to fit 64 bits), a float, a text or \<open>null\<close> (Python's \<open>None\<close>); booleans and nested
  values, which the provider does not send for these fields, are left out. A record is
  a Python \<open>dict\<close>, kept as an association list in key order and read with \<open>map_of\<close>.
\<close>

datatype jval = JInt "64 word" | JFloat fval | JStr string | JNull

type_synonym raw_record = "(string \<times> jval) list"

text \<open>
  \<open>pd.isna\<close> on a float and on a numeric cell. An infinity is a value, not a missing
  one, and a whole number is never missing.
\<close>

definition isna :: "fval \<Rightarrow> bool" where
  "isna v = (v = NaN)"

fun isna_num :: "num \<Rightarrow> bool" where
  "isna_num (Int64 w) = False"
| "isna_num (Float64 v) = isna v"


subsection \<open>Float arithmetic\<close>

text \<open>
  numpy's float64 operations, with floating-point errors silenced: nothing raises. The
  rounding of an exact result that is not zero is a parameter \<open>rnd\<close> of the model: for
  the machine it gives the nearest double, an infinity when the result is out of
  range, and a zero when it is too small. What does not depend on rounding is written
  out: a NaN operand gives NaN, \<open>\<infinity> - \<infinity>\<close>, \<open>0 / 0\<close>, \<open>\<infinity> / \<infinity>\<close> and \<open>0 * \<infinity>\<close> are NaN,
  \<open>x / 0\<close> is an infinity for every other \<open>x\<close>, and the sign of a zero or of an
  infinity that a quotient or a product yields is the product of the signs.
\<close>

fun negative :: "fval \<Rightarrow> bool" where
  "negative (Fin x) = (x < 0)"
| "negative NZero = True"
| "negative PInf = False"
| "negative NInf = True"
| "negative NaN = False"

fun value_of :: "fval \<Rightarrow> real" where
  "value_of (Fin x) = x"
| "value_of v = 0"

definition is_zero :: "fval \<Rightarrow> bool" where
  "is_zero v = (v = Fin 0 \<or> v = NZero)"

definition is_inf :: "fval \<Rightarrow> bool" where
  "is_inf v = (v = PInf \<or> v = NInf)"

definition signed_zero :: "bool \<Rightarrow> fval" where
  "signed_zero neg = (if neg then NZero else Fin 0)"

definition signed_inf :: "bool \<Rightarrow> fval" where
  "signed_inf neg = (if neg then NInf else PInf)"

text \<open>
  \<open>a - b\<close>. An exact difference of zero is \<open>+0.0\<close>, except \<open>-0.0 - +0.0\<close>, which is
  \<open>-0.0\<close>.
\<close>

definition fsub :: "(real \<Rightarrow> fval) \<Rightarrow> fval \<Rightarrow> fval \<Rightarrow> fval" where
  "fsub rnd a b =
     (if a = NaN \<or> b = NaN then NaN
      else if a = PInf then (if b = PInf then NaN else PInf)
      else if a = NInf then (if b = NInf then NaN else NInf)
      else if b = PInf then NInf
      else if b = NInf then PInf
      else if value_of a - value_of b = 0
        then (if a = NZero \<and> b = Fin 0 then NZero else Fin 0)
      else rnd (value_of a - value_of b))"

text \<open>\<open>a / b\<close>.\<close>

definition fdiv :: "(real \<Rightarrow> fval) \<Rightarrow> fval \<Rightarrow> fval \<Rightarrow> fval" where
  "fdiv rnd a b =
     (if a = NaN \<or> b = NaN then NaN
      else if is_inf a then (if is_inf b then NaN else signed_inf (negative a \<noteq> negative b))
      else if is_inf b then signed_zero (negative a \<noteq> negative b)
      else if is_zero b
        then (if is_zero a then NaN else signed_inf (negative a \<noteq> negative b))
      else if is_zero a then signed_zero (negative a \<noteq> negative b)
      else rnd (value_of a / value_of b))"

text \<open>\<open>a * b\<close>.\<close>

definition fmul :: "(real \<Rightarrow> fval) \<Rightarrow> fval \<Rightarrow> fval \<Rightarrow> fval" where
  "fmul rnd a b =
     (if a = NaN \<or> b = NaN then NaN
      else if is_inf a \<or> is_inf b
        then (if is_zero a \<or> is_zero b then NaN else signed_inf (negative a \<noteq> negative b))
      else if is_zero a \<or> is_zero b then signed_zero (negative a \<noteq> negative b)
      else rnd (value_of a * value_of b))"

text \<open>
  What the theorems below need of the rounding: it never yields NaN, and a result of
  magnitude 1 or more does not round to zero.
\<close>

definition is_rounding :: "(real \<Rightarrow> fval) \<Rightarrow> bool" where
  "is_rounding rnd = (\<forall>x. x \<noteq> 0 \<longrightarrow> rnd x \<noteq> NaN \<and> (1 \<le> \<bar>x\<bar> \<longrightarrow> \<not> is_zero (rnd x)))"

text \<open>
  The comparisons \<open><\<close> and \<open>\<le>\<close> of two floats: false as soon as one of them is NaN;
  the two zeros are equal.
\<close>

fun fless :: "fval \<Rightarrow> fval \<Rightarrow> bool" where
  "fless NaN b = False"
| "fless a NaN = False"
| "fless NInf b = (b \<noteq> NInf)"
| "fless a NInf = False"
| "fless PInf b = False"
| "fless a PInf = True"
| "fless a b = (value_of a < value_of b)"

definition fle :: "fval \<Rightarrow> fval \<Rightarrow> bool" where
  "fle a b = (a \<noteq> NaN \<and> b \<noteq> NaN \<and> \<not> fless b a)"

subsection \<open>Arithmetic on numeric cells\<close>

text \<open>
  The conversion of an int64 to float64, which numpy applies where a whole number meets
  a float: exact up to \<open>2^53\<close>, rounded beyond.
\<close>

definition of_int64 :: "(real \<Rightarrow> fval) \<Rightarrow> 64 word \<Rightarrow> fval" where
  "of_int64 rnd w =
     (if \<bar>sint w\<bar> \<le> 2 ^ 53 then Fin (real_of_int (sint w)) else rnd (real_of_int (sint w)))"

fun to_f64 :: "(real \<Rightarrow> fval) \<Rightarrow> num \<Rightarrow> fval" where
  "to_f64 rnd (Int64 w) = of_int64 rnd w"
| "to_f64 rnd (Float64 v) = v"

text \<open>
  \<open>Series - Series\<close> on one row. Two int64 columns give an int64 column, and the
  difference wraps around at 64 bits; in every other case both cells are taken as
  float64. A cell is \<open>Int64\<close> only in an int64 column, so the case is that of the columns.
\<close>

fun num_sub :: "(real \<Rightarrow> fval) \<Rightarrow> num \<Rightarrow> num \<Rightarrow> num" where
  "num_sub rnd (Int64 a) (Int64 b) = Int64 (a - b)"
| "num_sub rnd x y = Float64 (fsub rnd (to_f64 rnd x) (to_f64 rnd y))"

text \<open>
  \<open>(Series / Series) * 100\<close> on one row: the true division is a float64 division
  whatever the columns are, and the quotient is multiplied by the float \<open>100.0\<close>.
\<close>

definition percentage :: "(real \<Rightarrow> fval) \<Rightarrow> num \<Rightarrow> num \<Rightarrow> fval" where
  "percentage rnd change pc = fmul rnd (fdiv rnd (to_f64 rnd change) (to_f64 rnd pc)) (Fin 100)"

text \<open>Whether a cell holds a zero.\<close>

fun zero_num :: "num \<Rightarrow> bool" where
  "zero_num (Int64 w) = (w = 0)"
| "zero_num (Float64 v) = is_zero v"

section \<open>Data frames\<close>

text \<open>
  A \<open>DataFrame\<close> built from a list of records: its columns are the keys that occur in
  some record, its rows the records, in order. A cell whose key a record lacks reads
  \<open>None\<close> from \<open>map_of\<close>; pandas fills it with NaN. The order of the columns plays
  no role in what follows.
\<close>

record frame =
  columns :: "string list"
  rows :: "raw_record list"

definition DataFrame :: "raw_record list \<Rightarrow> frame" where
  "DataFrame recs = \<lparr>columns = remdups (concat (map (map fst) recs)), rows = recs\<rparr>"

text \<open>\<open>df[c] = v\<close> for a scalar \<open>v\<close>: the column is added or overwritten in every row.\<close>

definition setitem_scalar :: "frame \<Rightarrow> string \<Rightarrow> jval \<Rightarrow> frame" where
  "setitem_scalar df c v =
     \<lparr>columns = (if c \<in> set (columns df) then columns df else columns df @ [c]),
      rows = map (AList.update c v) (rows df)\<rparr>"

text \<open>\<open>pd.concat(frames, ignore_index=True)\<close>: the union of the columns, the rows in order.\<close>

definition concat_frames :: "frame list \<Rightarrow> frame" where
  "concat_frames dfs =
     \<lparr>columns = remdups (concat (map columns dfs)), rows = concat (map rows dfs)\<rparr>"

section \<open>The Fetcher\<close>

text \<open>
  What can go wrong: a \<open>KeyError\<close> of a dictionary or a data frame, with the key, and
  whatever \<open>nsefetch\<close> raises (a failed or timed-out request, an undecodable body).
\<close>

datatype error = KeyError string | ProviderError string

text \<open>
  The decoded answer of the provider to one request: the list under its key
  \<open>data\<close>, or \<open>None\<close> when the answer has no such key.
\<close>

type_synonym payload = "raw_record list option"

definition indices :: "string list" where
  "indices =
     [''NIFTY 50'', ''NIFTY NEXT 50'', ''NIFTY MIDCAP 50'', ''NIFTY SMALLCAP 100'',
      ''NIFTY 100'', ''NIFTY 200'', ''NIFTY 500'', ''NIFTY MIDCAP 100'',
      ''NIFTY MIDCAP 150'', ''NIFTY SMALLCAP 250'', ''NIFTY MIDSML 400'']"

text \<open>\<open>index.replace(' ', '%20')\<close> and the URL of line 34.\<close>

definition replace_space :: "string \<Rightarrow> string" where
  "replace_space s = concat (map (\<lambda>c. if c = CHR '' '' then ''%20'' else [c]) s)"

definition url_of :: "string \<Rightarrow> string" where
  "url_of index =
     ''https://www.nseindia.com/api/equity-stockIndices?index='' @ replace_space index"

text \<open>
  The loop of lines 33 to 38 over the remaining index names. \<open>nsefetch\<close> is the
  provider as it answers during this cycle: a call of the library function either
  returns the decoded answer or raises. \<open>reqs\<close> records every call, in order. An
  exception leaves the loop at once, with the list \<open>all_data\<close> lost.
\<close>

fun fetch_loop ::
  "(string \<Rightarrow> error + payload) \<Rightarrow> string list \<Rightarrow> frame list \<Rightarrow> string list
     \<Rightarrow> (error + frame list) \<times> string list" where
  "fetch_loop nsefetch [] all_data reqs = (Inr all_data, reqs)"
| "fetch_loop nsefetch (index # rest) all_data reqs =
     (let url = url_of index; reqs' = reqs @ [url] in
      case nsefetch url of
        Inl e \<Rightarrow> (Inl e, reqs')
      | Inr data \<Rightarrow>
          (case data of
             None \<Rightarrow> (Inl (KeyError ''data''), reqs')
           | Some recs \<Rightarrow>
               fetch_loop nsefetch rest
                 (all_data @ [setitem_scalar (DataFrame recs) ''index'' (JStr index)]) reqs'))"

text \<open>The body of \<open>get_all_indices_data\<close>, without its memoization.\<close>

definition get_all_indices_data_body ::
  "(string \<Rightarrow> error + payload) \<Rightarrow> string list \<Rightarrow> (error + frame) \<times> string list" where
  "get_all_indices_data_body nsefetch reqs =
     (case fetch_loop nsefetch indices [] reqs of
        (Inl e, reqs') \<Rightarrow> (Inl e, reqs')
      | (Inr all_data, reqs') \<Rightarrow> (Inr (concat_frames all_data), reqs'))"

section \<open>The Normalizer/Ranker\<close>

text \<open>
  \<open>pd.to_numeric(column, errors='coerce')\<close>, first on one cell. \<open>to_number\<close> is the
  library's conversion of a text to a number, whole or float, and \<open>None\<close> where the
  text is not a number; it is a parameter of the model. An absent cell, \<open>null\<close>, the
  empty text and a text that is not a number all become NaN.
\<close>

definition coerce_cell :: "(string \<Rightarrow> num option) \<Rightarrow> jval option \<Rightarrow> num" where
  "coerce_cell to_number c =
     (case c of
        None \<Rightarrow> Float64 NaN
      | Some JNull \<Rightarrow> Float64 NaN
      | Some (JInt w) \<Rightarrow> Int64 w
      | Some (JFloat v) \<Rightarrow> Float64 v
      | Some (JStr s) \<Rightarrow>
          (if s = [] then Float64 NaN
           else case to_number s of None \<Rightarrow> Float64 NaN | Some n \<Rightarrow> n))"

fun is_int :: "num \<Rightarrow> bool" where
  "is_int (Int64 w) = True"
| "is_int (Float64 v) = False"

text \<open>
  The column that results is int64 when every cell of it became a whole number, and
  float64 otherwise: then its whole numbers are converted to floats.
  \<open>to_numeric\<close> gives the cell of the resulting column \<open>c\<close> at the row \<open>r\<close> of \<open>df\<close>.
\<close>

definition int_column :: "(string \<Rightarrow> num option) \<Rightarrow> frame \<Rightarrow> string \<Rightarrow> bool" where
  "int_column to_number df c =
     list_all (\<lambda>r. is_int (coerce_cell to_number (map_of r c))) (rows df)"

definition to_numeric ::
  "(string \<Rightarrow> num option) \<Rightarrow> (real \<Rightarrow> fval) \<Rightarrow> frame \<Rightarrow> string \<Rightarrow> raw_record \<Rightarrow> num" where
  "to_numeric to_number rnd df c r =
     (let n = coerce_cell to_number (map_of r c)
      in if int_column to_number df c then n else Float64 (to_f64 rnd n))"

text \<open>One row of the table that \<open>get_stock_data\<close> returns: the fourteen columns of
  lines 84 to 86 (\<open>openPrice\<close> is the column \<open>open\<close>). \<open>symbol\<close> and \<open>index\<close> are
  not coerced: they hold the cell of the source, \<open>None\<close> where the record lacks it.\<close>

record stock_row =
  symbol :: "jval option"
  index :: "jval option"
  lastPrice :: num
  previousClose :: num
  openPrice :: num
  dayHigh :: num
  dayLow :: num
  priceChange :: num
  percentageChange :: fval
  yearHigh :: num
  yearLow :: num
  totalMktCap :: "num option"
  pe :: "num option"
  vwap :: "num option"

text \<open>
  Lines 51 to 78 on one row of the frame \<open>df\<close>. All of them work column by column on
  rows that stay aligned, so the row is computed at once. A column of lines 61 to 74
  that the frame lacks is filled with \<open>None\<close>.
\<close>

definition optional_column ::
  "(string \<Rightarrow> num option) \<Rightarrow> (real \<Rightarrow> fval) \<Rightarrow> frame \<Rightarrow> raw_record \<Rightarrow> string \<Rightarrow> num option" where
  "optional_column to_number rnd df r c =
     (if c \<in> set (columns df) then Some (to_numeric to_number rnd df c r) else None)"

definition normalize_row ::
  "(string \<Rightarrow> num option) \<Rightarrow> (real \<Rightarrow> fval) \<Rightarrow> frame \<Rightarrow> raw_record \<Rightarrow> stock_row" where
  "normalize_row to_number rnd df r =
     (let lp = to_numeric to_number rnd df ''lastPrice'' r;
          pc = to_numeric to_number rnd df ''previousClose'' r;
          change = num_sub rnd lp pc
      in \<lparr>symbol = map_of r ''symbol'',
          index = map_of r ''index'',
          lastPrice = lp,
          previousClose = pc,
          openPrice = to_numeric to_number rnd df ''open'' r,
          dayHigh = to_numeric to_number rnd df ''dayHigh'' r,
          dayLow = to_numeric to_number rnd df ''dayLow'' r,
          priceChange = change,
          percentageChange = percentage rnd change pc,
          yearHigh = to_numeric to_number rnd df ''yearHigh'' r,
          yearLow = to_numeric to_number rnd df ''yearLow'' r,
          totalMktCap = optional_column to_number rnd df r ''totalMktCap'',
          pe = optional_column to_number rnd df r ''pe'',
          vwap = optional_column to_number rnd df r ''vwap''\<rparr>)"

text \<open>
  The key by which a cell is sorted: a whole number is compared as the number it is.
\<close>

fun sort_key :: "num \<Rightarrow> fval" where
  "sort_key (Int64 w) = Fin (real_of_int (sint w))"
| "sort_key (Float64 v) = v"

text \<open>
  \<open>sort_values(by='yearHigh', ascending=False)\<close> sorts with pandas' \<open>nargsort\<close>, with
  the defaults \<open>kind='quicksort'\<close> and \<open>na_position='last'\<close>: the positions of the NaN
  keys are set aside, the other keys are reversed, sorted in ascending order by numpy's
  \<open>argsort\<close>, and the result is reversed again; the NaN positions follow, in their
  order. \<open>argsort\<close> is the library's routine for \<open>kind='quicksort'\<close>, a parameter of the
  model: it returns the positions of its argument in sorted order.
\<close>

definition nargsort :: "(fval list \<Rightarrow> nat list) \<Rightarrow> fval list \<Rightarrow> nat list" where
  "nargsort argsort items =
     (let idx = [0..<length items];
          non_nans = rev (filter (\<lambda>v. \<not> isna v) items);
          non_nan_idx = rev (filter (\<lambda>i. \<not> isna (items ! i)) idx);
          nan_idx = filter (\<lambda>i. isna (items ! i)) idx;
          indexer = map (\<lambda>k. non_nan_idx ! k) (argsort non_nans)
      in rev indexer @ nan_idx)"

text \<open>
  The columns that lines 51 to 58 read, in the order they are read, and the columns
  of the selection of lines 84 to 86 that no earlier line has read or written.
  Reading a column that the frame lacks raises \<open>KeyError\<close>.
\<close>

definition numeric_columns :: "string list" where
  "numeric_columns =
     [''totalTradedVolume'', ''lastPrice'', ''previousClose'', ''open'', ''dayHigh'',
      ''dayLow'', ''yearHigh'', ''yearLow'']"

definition selected_columns :: "string list" where
  "selected_columns = [''symbol'', ''index'']"

text \<open>
  A table is a sorted data frame: each row keeps, as its label, the position it had in
  the frame before sorting.
\<close>

type_synonym table = "(nat \<times> stock_row) list"

text \<open>The body of \<open>get_stock_data\<close> (lines 51 to 88) on the frame that line 48 obtained.\<close>

definition get_stock_data_body ::
  "(string \<Rightarrow> num option) \<Rightarrow> (real \<Rightarrow> fval) \<Rightarrow> (fval list \<Rightarrow> nat list) \<Rightarrow> frame
     \<Rightarrow> error + table" where
  "get_stock_data_body to_number rnd argsort df =
     (case find (\<lambda>c. c \<notin> set (columns df)) numeric_columns of
        Some c \<Rightarrow> Inl (KeyError c)
      | None \<Rightarrow>
          (let rs = map (normalize_row to_number rnd df) (rows df);
               sorted_df = map (\<lambda>i. (i, rs ! i)) (nargsort argsort (map (\<lambda>r. sort_key (yearHigh r)) rs))
           in case find (\<lambda>c. c \<notin> set (columns df)) selected_columns of
                Some c \<Rightarrow> Inl (KeyError c)
              | None \<Rightarrow> Inr sorted_df))"

section \<open>The process: caches and callbacks\<close>

text \<open>
  The state of one server process: the clock in seconds, the entry of the Flask cache
  for \<open>get_all_indices_data\<close> (its expiry time and the frame), the single slot of the
  \<open>lru_cache\<close> around \<open>get_stock_data\<close>, and the requests sent so far. The provider
  \<open>world\<close> answers a request by the time it is made.
\<close>

record process =
  clock :: nat
  memo :: "(nat \<times> frame) option"
  lru :: "table option"
  requests :: "string list"

type_synonym provider = "nat \<Rightarrow> string \<Rightarrow> error + payload"

definition CACHE_TIMEOUT :: nat where
  "CACHE_TIMEOUT = 5 * 5"

text \<open>
  \<open>@cache.memoize(timeout=CACHE_TIMEOUT)\<close>: an entry that has not expired is returned
  without a fetch; otherwise the body runs and its frame is stored with the expiry
  time. An exception stores nothing. The cache keeps a pickled copy, so what line 51
  onwards writes into the returned frame never reaches the entry.
\<close>

definition get_all_indices_data :: "provider \<Rightarrow> process \<Rightarrow> (error + frame) \<times> process" where
  "get_all_indices_data world s =
     (let miss =
        (case get_all_indices_data_body (world (clock s)) (requests s) of
           (Inl e, reqs) \<Rightarrow> (Inl e, s\<lparr>requests := reqs\<rparr>)
         | (Inr df, reqs) \<Rightarrow>
             (Inr df, s\<lparr>memo := Some (clock s + CACHE_TIMEOUT, df), requests := reqs\<rparr>))
      in case memo s of
           None \<Rightarrow> miss
         | Some (expires, df) \<Rightarrow> if clock s < expires then (Inr df, s) else miss)"

text \<open>
  \<open>@functools.lru_cache(maxsize=1)\<close> around a function without arguments: once a call
  has returned, its result fills the slot and every later call returns it. Nothing in
  the program clears the slot. An exception stores nothing.
\<close>

definition get_stock_data ::
  "(string \<Rightarrow> num option) \<Rightarrow> (real \<Rightarrow> fval) \<Rightarrow> (fval list \<Rightarrow> nat list) \<Rightarrow> provider \<Rightarrow> process
     \<Rightarrow> (error + table) \<times> process" where
  "get_stock_data to_number rnd argsort world s =
     (case lru s of
        Some t \<Rightarrow> (Inr t, s)
      | None \<Rightarrow>
          (case get_all_indices_data world s of
             (Inl e, s') \<Rightarrow> (Inl e, s')
           | (Inr df, s') \<Rightarrow>
               (case get_stock_data_body to_number rnd argsort df of
                  Inl e \<Rightarrow> (Inl e, s')
                | Inr t \<Rightarrow> (Inr t, s'\<lparr>lru := Some t\<rparr>))))"

text \<open>
  \<open>update_table\<close> (lines 163 to 167): the rows of the table, those of the selected
  symbol only when the dropdown holds a non-empty text.
\<close>

definition update_table ::
  "(string \<Rightarrow> num option) \<Rightarrow> (real \<Rightarrow> fval) \<Rightarrow> (fval list \<Rightarrow> nat list) \<Rightarrow> provider \<Rightarrow> string option \<Rightarrow> nat
     \<Rightarrow> process \<Rightarrow> (error + table) \<times> process" where
  "update_table to_number rnd argsort world selected_symbol n s =
     (case get_stock_data to_number rnd argsort world s of
        (Inl e, s') \<Rightarrow> (Inl e, s')
      | (Inr df, s') \<Rightarrow>
          (case selected_symbol of
             None \<Rightarrow> (Inr df, s')
           | Some sel \<Rightarrow>
               if sel = [] then (Inr df, s')
               else (Inr (filter (\<lambda>(i, r). symbol r = Some (JStr sel)) df), s')))"

subsection \<open>Export\<close>

text \<open>
  A workbook as \<open>DataFrame.to_excel\<close> writes it: one sheet with its name and the rows
  of the table, with or without the label column. The bytes of the file format are not
  modelled. \<open>default_sheet_name\<close> is what pandas uses when \<open>to_excel\<close> gets no
  \<open>sheet_name\<close>.
\<close>

record workbook =
  sheet_name :: string
  with_index :: bool
  cells :: table

definition default_sheet_name :: string where
  "default_sheet_name = ''Sheet1''"

definition to_excel :: "table \<Rightarrow> string \<Rightarrow> bool \<Rightarrow> workbook" where
  "to_excel df sheet idx = \<lparr>sheet_name = sheet, with_index = idx, cells = df\<rparr>"

text \<open>
  What \<open>dcc.send_data_frame(writer, filename, **kwargs)\<close> hands to the browser: the file
  that \<open>writer\<close> produces from \<open>kwargs\<close>, under \<open>filename\<close>.
\<close>

record download =
  filename :: string
  content :: workbook

text \<open>
  \<open>download_as_excel\<close> (lines 175 to 177): \<open>to_excel\<close> is called with
  \<open>index=False\<close> and no \<open>sheet_name\<close>.
\<close>

definition download_as_excel ::
  "(string \<Rightarrow> num option) \<Rightarrow> (real \<Rightarrow> fval) \<Rightarrow> (fval list \<Rightarrow> nat list) \<Rightarrow> provider \<Rightarrow> nat
     \<Rightarrow> process \<Rightarrow> (error + download) \<times> process" where
  "download_as_excel to_number rnd argsort world n_clicks s =
     (case get_stock_data to_number rnd argsort world s of
        (Inl e, s') \<Rightarrow> (Inl e, s')
      | (Inr df, s') \<Rightarrow>
          (Inr \<lparr>filename = ''NSE_Stocks_Sorted_by_52_Week_High.xlsx'',
                content = to_excel df default_sheet_name False\<rparr>, s'))"

text \<open>
  \<open>generate_excel_download_link\<close> (lines 91 to 103), which no line of the program
  calls: the workbook behind the \<open>data:\<close> URI it returns. The URI carries no file name.
\<close>

definition generate_excel_download_link :: "table \<Rightarrow> workbook" where
  "generate_excel_download_link df = to_excel df ''Stocks'' False"

text \<open>
  What happens to a running process: time passes, or a callback (or the layout) calls
  \<open>get_stock_data\<close>. \<open>run\<close> collects what the calls return.
\<close>

datatype event = Tick nat | Call

fun run ::
  "(string \<Rightarrow> num option) \<Rightarrow> (real \<Rightarrow> fval) \<Rightarrow> (fval list \<Rightarrow> nat list) \<Rightarrow> provider \<Rightarrow> event list \<Rightarrow> process
     \<Rightarrow> (error + table) list" where
  "run to_number rnd argsort world [] s = []"
| "run to_number rnd argsort world (Tick d # evs) s =
     run to_number rnd argsort world evs (s\<lparr>clock := clock s + d\<rparr>)"
| "run to_number rnd argsort world (Call # evs) s =
     (case get_stock_data to_number rnd argsort world s of
        (r, s') \<Rightarrow> r # run to_number rnd argsort world evs s')"

section \<open>The sorting routine\<close>

text \<open>
  What numpy promises of \<open>argsort\<close> on floats without NaN: the result holds every
  position once, and the values at these positions ascend. With \<open>kind='quicksort'\<close> it
  promises nothing on the order of positions with equal values.
\<close>

definition is_argsort :: "(fval list \<Rightarrow> nat list) \<Rightarrow> bool" where
  "is_argsort argsort =
     (\<forall>xs. NaN \<notin> set xs \<longrightarrow>
        mset (argsort xs) = mset [0..<length xs] \<and>
        sorted_wrt (\<lambda>i j. fle (xs ! i) (xs ! j)) (argsort xs))"

text \<open>
  One routine of this kind, used in the examples: insertion sort on the positions,
  each position going behind those with an equal value.
\<close>

fun insert_pos :: "fval list \<Rightarrow> nat \<Rightarrow> nat list \<Rightarrow> nat list" where
  "insert_pos xs i [] = [i]"
| "insert_pos xs i (j # js) =
     (if fless (xs ! i) (xs ! j) then i # j # js else j # insert_pos xs i js)"

definition stable_argsort :: "fval list \<Rightarrow> nat list" where
  "stable_argsort xs = foldl (\<lambda>acc i. insert_pos xs i acc) [] [0..<length xs]"

subsection \<open>numpy's quicksort\<close>

text \<open>
  The routine that numpy runs for \<open>argsort(kind='quicksort')\<close> on a float64 array when
  no vectorised variant is dispatched: \<open>aquicksort\<close> of \<open>npysort/quicksort.cpp\<close>, an
  introsort on the array \<open>tosort\<close> of positions (here \<open>t\<close>) that leaves the values \<open>v\<close>
  in place. A range of more than \<open>SMALL_QUICKSORT + 1\<close> positions is partitioned around
  the median of its first, middle and last value; a smaller one is sorted by
  insertion; a range whose depth limit is used up is sorted by \<open>aheapsort\<close>. The
  pointers \<open>pl\<close>, \<open>pr\<close>, \<open>pi\<close>, \<open>pj\<close> are positions in \<open>t\<close>, written \<open>pl\<close>, \<open>pr\<close>, \<open>i\<close>,
  \<open>j\<close>.
\<close>

text \<open>The comparison of two floats that the sort uses: NaN is larger than every number.\<close>

definition npy_less :: "fval \<Rightarrow> fval \<Rightarrow> bool" where
  "npy_less a b = (fless a b \<or> (b = NaN \<and> a \<noteq> NaN))"

definition SMALL_QUICKSORT :: nat where
  "SMALL_QUICKSORT = 16"

text \<open>\<open>npy_get_msb\<close>: how often the number can be halved before it is zero, less one.\<close>

fun npy_get_msb :: "nat \<Rightarrow> nat" where
  "npy_get_msb unum = (if unum < 2 then 0 else Suc (npy_get_msb (unum div 2)))"

declare npy_get_msb.simps [simp del]

definition intp_swap :: "nat list \<Rightarrow> nat \<Rightarrow> nat \<Rightarrow> nat list" where
  "intp_swap t a b = t[a := t ! b, b := t ! a]"

text \<open>
  The two scans of the partition, \<open>do ++pi; while (v[*pi] < vp)\<close> and
  \<open>do --pj; while (vp < v[*pj])\<close>. In the code they stop at the latest on the pivot,
  which waits at \<open>pr - 1\<close>, and on the first position of the range, whose value is
  not above the pivot; the bounds \<open>hi\<close> and \<open>lo\<close> say so.
\<close>

function scan_up :: "fval list \<Rightarrow> nat list \<Rightarrow> fval \<Rightarrow> nat \<Rightarrow> nat \<Rightarrow> nat" where
  "scan_up v t vp i hi =
     (if Suc i < hi \<and> npy_less (v ! (t ! Suc i)) vp then scan_up v t vp (Suc i) hi
      else Suc i)"
  by pat_completeness auto
termination
  by (relation "measure (\<lambda>(v, t, vp, i, hi). hi - i)") auto

declare scan_up.simps [simp del]

function scan_down :: "fval list \<Rightarrow> nat list \<Rightarrow> fval \<Rightarrow> nat \<Rightarrow> nat \<Rightarrow> nat" where
  "scan_down v t vp j lo =
     (if lo < j - 1 \<and> npy_less vp (v ! (t ! (j - 1))) then scan_down v t vp (j - 1) lo
      else j - 1)"
  by pat_completeness auto
termination
  by (relation "measure (\<lambda>(v, t, vp, j, lo). j)") auto

declare scan_down.simps [simp del]

lemma scan_up_gt: "i < scan_up v t vp i hi"
proof (induction v t vp i hi rule: scan_up.induct)
  case (1 v t vp i hi)
  show ?case
  proof (cases "Suc i < hi \<and> npy_less (v ! (t ! Suc i)) vp")
    case True
    then have "scan_up v t vp i hi = scan_up v t vp (Suc i) hi"
      by (simp add: scan_up.simps [of v t vp i hi])
    with 1 True show ?thesis by fastforce
  next
    case False
    then have "scan_up v t vp i hi = Suc i"
      by (auto simp: scan_up.simps [of v t vp i hi])
    then show ?thesis by simp
  qed
qed

lemma scan_down_le: "scan_down v t vp j lo \<le> j"
proof (induction v t vp j lo rule: scan_down.induct)
  case (1 v t vp j lo)
  show ?case
  proof (cases "lo < j - 1 \<and> npy_less vp (v ! (t ! (j - 1)))")
    case True
    then have "scan_down v t vp j lo = scan_down v t vp (j - 1) lo"
      by (simp add: scan_down.simps [of v t vp j lo])
    with 1 True show ?thesis by fastforce
  next
    case False
    then have "scan_down v t vp j lo = j - 1"
      by (auto simp: scan_down.simps [of v t vp j lo])
    then show ?thesis by simp
  qed
qed

text \<open>The loop \<open>for (;;)\<close> of the partition: scan, stop when the scans meet, else swap.\<close>

function partition_loop ::
  "fval list \<Rightarrow> nat list \<Rightarrow> fval \<Rightarrow> nat \<Rightarrow> nat \<Rightarrow> nat \<Rightarrow> nat \<Rightarrow> nat list \<times> nat" where
  "partition_loop v t vp i j lo hi =
     (let i' = scan_up v t vp i hi; j' = scan_down v t vp j lo in
      if i' \<ge> j' then (t, i')
      else partition_loop v (intp_swap t i' j') vp i' j' lo hi)"
  by pat_completeness auto
termination
proof (relation "measure (\<lambda>(v, t, vp, i, j, lo, hi). j - i)", goal_cases)
  case 1
  then show ?case by simp
next
  case (2 v t vp i j lo hi i' j')
  then show ?case
    using scan_up_gt [of i v t vp hi] scan_down_le [of v t vp j lo] by simp
qed

declare partition_loop.simps [simp del]

text \<open>
  One pass of the loop \<open>while ((pr - pl) > SMALL_QUICKSORT)\<close> up to the swap that puts
  the pivot in its place: the new array and the position of the pivot.
\<close>

definition partition :: "fval list \<Rightarrow> nat list \<Rightarrow> nat \<Rightarrow> nat \<Rightarrow> nat list \<times> nat" where
  "partition v t pl pr =
     (let m = pl + (pr - pl) div 2;
          t = (if npy_less (v ! (t ! m)) (v ! (t ! pl)) then intp_swap t m pl else t);
          t = (if npy_less (v ! (t ! pr)) (v ! (t ! m)) then intp_swap t pr m else t);
          t = (if npy_less (v ! (t ! m)) (v ! (t ! pl)) then intp_swap t m pl else t);
          vp = v ! (t ! m);
          t = intp_swap t m (pr - 1);
          (t, i) = partition_loop v t vp pl (pr - 1) pl (pr - 1)
      in (intp_swap t i (pr - 1), i))"

text \<open>The insertion sort of the positions \<open>pl\<close> to \<open>pr\<close>.\<close>

function shift :: "fval list \<Rightarrow> nat list \<Rightarrow> fval \<Rightarrow> nat \<Rightarrow> nat \<Rightarrow> nat \<Rightarrow> nat list" where
  "shift v t vp vi j pl =
     (if j > pl \<and> npy_less vp (v ! (t ! (j - 1))) then shift v (t[j := t ! (j - 1)]) vp vi (j - 1) pl
      else t[j := vi])"
  by pat_completeness auto
termination
  by (relation "measure (\<lambda>(v, t, vp, vi, j, pl). j)") auto

declare shift.simps [simp del]

definition insertion_sort :: "fval list \<Rightarrow> nat list \<Rightarrow> nat \<Rightarrow> nat \<Rightarrow> nat list" where
  "insertion_sort v t pl pr =
     foldl (\<lambda>t i. shift v t (v ! (t ! i)) (t ! i) i pl) t [pl + 1..<pr + 1]"

text \<open>
  \<open>aheapsort\<close> on the \<open>n\<close> positions from \<open>base\<close>, which the code indexes from 1:
  \<open>sift\<close> is the inner loop of both of its loops, with the final store of \<open>tmp\<close>.
\<close>

function sift :: "fval list \<Rightarrow> nat list \<Rightarrow> nat \<Rightarrow> nat \<Rightarrow> nat \<Rightarrow> nat \<Rightarrow> nat \<Rightarrow> nat list" where
  "sift v t base tmp i j n =
     (if 0 < j \<and> j \<le> n then
        (let j = (if j < n \<and> npy_less (v ! (t ! (base + j - 1))) (v ! (t ! (base + j))) then j + 1
                  else j)
         in if npy_less (v ! tmp) (v ! (t ! (base + j - 1)))
            then sift v (t[base + i - 1 := t ! (base + j - 1)]) base tmp j (j + j) n
            else t[base + i - 1 := tmp])
      else t[base + i - 1 := tmp])"
  by pat_completeness auto
termination
  by (relation "measure (\<lambda>(v, t, base, tmp, i, j, n). Suc n - j)") auto

declare sift.simps [simp del]

fun heapify :: "fval list \<Rightarrow> nat list \<Rightarrow> nat \<Rightarrow> nat \<Rightarrow> nat \<Rightarrow> nat list" where
  "heapify v t base 0 n = t"
| "heapify v t base (Suc l) n =
     heapify v (sift v t base (t ! (base + l)) (Suc l) (2 * Suc l) n) base l n"

fun sort_down :: "fval list \<Rightarrow> nat list \<Rightarrow> nat \<Rightarrow> nat \<Rightarrow> nat list" where
  "sort_down v t base 0 = t"
| "sort_down v t base (Suc n) =
     (if n = 0 then t
      else sort_down v (sift v (t[base + n := t ! base]) base (t ! (base + n)) 1 2 n) base n)"

definition aheapsort :: "fval list \<Rightarrow> nat list \<Rightarrow> nat \<Rightarrow> nat \<Rightarrow> nat list" where
  "aheapsort v t base n = sort_down v (heapify v t base (n div 2) n) base n"

lemma scan_up_le: "i < hi \<Longrightarrow> scan_up v t vp i hi \<le> hi"
proof (induction v t vp i hi rule: scan_up.induct)
  case (1 v t vp i hi)
  show ?case
  proof (cases "Suc i < hi \<and> npy_less (v ! (t ! Suc i)) vp")
    case True
    then have "scan_up v t vp i hi = scan_up v t vp (Suc i) hi"
      by (simp add: scan_up.simps [of v t vp i hi])
    with 1 True show ?thesis by fastforce
  next
    case False
    then have "scan_up v t vp i hi = Suc i"
      by (auto simp: scan_up.simps [of v t vp i hi])
    with "1.prems" show ?thesis by simp
  qed
qed

lemma partition_loop_bounds:
  "i < hi \<Longrightarrow> j \<le> hi \<Longrightarrow> partition_loop v t vp i j lo hi = (t', p) \<Longrightarrow> i < p \<and> p \<le> hi"
proof (induction v t vp i j lo hi arbitrary: t' p rule: partition_loop.induct)
  case (1 v t vp i j lo hi)
  let ?i = "scan_up v t vp i hi" and ?j = "scan_down v t vp j lo"
  have i: "i < ?i" "?i \<le> hi"
    using scan_up_gt scan_up_le "1.prems"(1) by simp_all
  have j: "?j \<le> hi"
    using scan_down_le [of v t vp j lo] "1.prems"(2) by simp
  show ?case
  proof (cases "?i \<ge> ?j")
    case True
    then have "partition_loop v t vp i j lo hi = (t, ?i)"
      by (simp add: partition_loop.simps [of v t vp i j lo hi])
    with "1.prems"(3) have "p = ?i" by (metis snd_conv)
    with i show ?thesis by simp
  next
    case False
    then have "partition_loop v t vp i j lo hi = partition_loop v (intp_swap t ?i ?j) vp ?i ?j lo hi"
      by (simp add: partition_loop.simps [of v t vp i j lo hi] Let_def)
    with "1.prems"(3) have "partition_loop v (intp_swap t ?i ?j) vp ?i ?j lo hi = (t', p)"
      by simp
    moreover have "?i < hi" using False j by simp
    ultimately have "?i < p \<and> p \<le> hi"
      using "1.IH" [OF refl refl _ _ j] False by simp
    with i show ?thesis by simp
  qed
qed

lemma partition_bounds:
  assumes "SMALL_QUICKSORT < pr - pl" and "partition v t pl pr = (t', i)"
  shows "pl < i \<and> i < pr"
proof -
  from assms(2) obtain t0 vp t1 where "partition_loop v t0 vp pl (pr - 1) pl (pr - 1) = (t1, i)"
    by (auto simp: partition_def Let_def split: prod.splits)
  moreover have "pl < pr - 1" using assms(1) by (simp add: SMALL_QUICKSORT_def)
  ultimately have "pl < i \<and> i \<le> pr - 1"
    using partition_loop_bounds by blast
  with \<open>pl < pr - 1\<close> show ?thesis by linarith
qed

text \<open>
  The outer loop. \<open>stack\<close> holds the ranges put aside with their depth limits;
  \<open>check\<close> tells that control is at the top of \<open>while (1)\<close>, where the depth limit is
  tested, and not inside the partition loop.
\<close>

function aquicksort_loop ::
  "fval list \<Rightarrow> nat list \<Rightarrow> nat \<Rightarrow> nat \<Rightarrow> (nat \<times> nat \<times> int) list \<Rightarrow> int \<Rightarrow> bool \<Rightarrow> nat list" where
  "aquicksort_loop v t pl pr stack cdepth check =
     (if check \<and> cdepth < 0 then
        (case stack of
           [] \<Rightarrow> aheapsort v t pl (pr + 1 - pl)
         | (pl', pr', d) # stack' \<Rightarrow>
             aquicksort_loop v (aheapsort v t pl (pr + 1 - pl)) pl' pr' stack' d True)
      else if pr - pl > SMALL_QUICKSORT then
        (case partition v t pl pr of
           (t', i) \<Rightarrow>
             if i - pl < pr - i
             then aquicksort_loop v t' pl (i - 1) ((i + 1, pr, cdepth - 1) # stack) (cdepth - 1) False
             else aquicksort_loop v t' (i + 1) pr ((pl, i - 1, cdepth - 1) # stack) (cdepth - 1) False)
      else
        (case stack of
           [] \<Rightarrow> insertion_sort v t pl pr
         | (pl', pr', d) # stack' \<Rightarrow>
             aquicksort_loop v (insertion_sort v t pl pr) pl' pr' stack' d True))"
  by pat_completeness auto
termination
proof (relation "measure (\<lambda>(v, t, pl, pr, stack, cdepth, check).
    2 * (pr + 1 - pl) + 1 + (\<Sum>(a, b, d)\<leftarrow>stack. 2 * (b + 1 - a) + 1))", goal_cases)
  case 1
  then show ?case by simp
next
  case 2
  then show ?case by auto
next
  case (3 v t pl pr stack cdepth check t' i)
  then have "partition v t pl pr = (t', i)" by simp
  with 3 have "pl < i \<and> i < pr" using partition_bounds by blast
  then show ?case by auto
next
  case (4 v t pl pr stack cdepth check t' i)
  then have "partition v t pl pr = (t', i)" by simp
  with 4 have "pl < i \<and> i < pr" using partition_bounds by blast
  then show ?case by auto
next
  case 5
  then show ?case by auto
qed

declare aquicksort_loop.simps [simp del]

definition numpy_argsort :: "fval list \<Rightarrow> nat list" where
  "numpy_argsort v =
     aquicksort_loop v [0..<length v] 0 (length v - 1) []
       (int (npy_get_msb (length v)) * 2) True"

section \<open>Example data\<close>

text \<open>
  A conversion of texts for the examples: it reads unsigned decimal integers of at most
  eighteen digits, as whole numbers, and nothing else.
\<close>

definition digits_to_number :: "string \<Rightarrow> num option" where
  "digits_to_number s =
     (if s \<noteq> [] \<and> length s \<le> 18 \<and> list_all (\<lambda>c. of_char c \<in> {48..57::nat}) s
      then Some (Int64 (of_nat (foldl (\<lambda>n c. 10 * n + (of_char c - 48)) 0 s)))
      else None)"

text \<open>
  A rounding for the examples: it takes every real for a double. The numbers of the
  examples are chosen so that every difference, quotient and product of theirs is a
  double, which this rounding then gives as the machine does.
\<close>

definition ex_round :: "real \<Rightarrow> fval" where
  "ex_round x = Fin x"

text \<open>A record with the nine fields that every answer of the examples carries.\<close>

definition stock :: "string \<Rightarrow> jval \<Rightarrow> jval \<Rightarrow> jval \<Rightarrow> raw_record" where
  "stock name lp pc yh =
     [(''symbol'', JStr name), (''totalTradedVolume'', JInt 1000),
      (''lastPrice'', lp), (''previousClose'', pc), (''open'', JInt 1),
      (''dayHigh'', JInt 2), (''dayLow'', JInt 1), (''yearHigh'', yh),
      (''yearLow'', JInt 1)]"

text \<open>
  A provider for the examples: two records for \<open>NIFTY 50\<close>, two for \<open>NIFTY 100\<close>, the
  latter with a field \<open>pe\<close>, and no record for the other indices. \<open>ex_frame\<close> is the
  frame that the Fetcher builds from its answers.
\<close>

definition ex_records :: "string \<Rightarrow> raw_record list" where
  "ex_records name =
     (if name = ''NIFTY 50'' then
        [stock ''X'' (JInt 96) (JInt 64) (JInt 100),
         stock ''Z'' (JInt 5) (JInt 0) (JStr ''-'')]
      else if name = ''NIFTY 100'' then
        [stock ''Y'' (JStr ''50'') (JInt 40) (JInt 150) @ [(''pe'', JFloat (Fin 12))],
         stock ''W'' JNull (JInt 40) JNull @ [(''pe'', JStr ''n/a'')]]
      else [])"

definition ex_provider :: "string \<Rightarrow> error + payload" where
  "ex_provider url =
     (case find (\<lambda>name. url_of name = url) indices of
        Some name \<Rightarrow> Inr (Some (ex_records name))
      | None \<Rightarrow> Inl (ProviderError ''404''))"

definition ex_frame :: frame where
  "ex_frame =
     \<lparr>columns =
        [''symbol'', ''totalTradedVolume'', ''lastPrice'', ''previousClose'', ''open'',
         ''dayHigh'', ''dayLow'', ''yearHigh'', ''yearLow'', ''pe'', ''index''],
      rows =
        [stock ''X'' (JInt 96) (JInt 64) (JInt 100) @
           [(''index'', JStr ''NIFTY 50'')],
         stock ''Z'' (JInt 5) (JInt 0) (JStr ''-'') @
           [(''index'', JStr ''NIFTY 50'')],
         stock ''Y'' (JStr ''50'') (JInt 40) (JInt 150) @
           [(''pe'', JFloat (Fin 12)), (''index'', JStr ''NIFTY 100'')],
         stock ''W'' JNull (JInt 40) JNull @
           [(''pe'', JStr ''n/a''), (''index'', JStr ''NIFTY 100'')]]\<rparr>"

text \<open>The table that the Normalizer/Ranker makes of \<open>ex_frame\<close>.\<close>

definition ex_table :: table where
  "ex_table =
     [(2, \<lparr>symbol = Some (JStr ''Y''), index = Some (JStr ''NIFTY 100''),
             lastPrice = Float64 (Fin 50), previousClose = Int64 40, openPrice = Int64 1,
             dayHigh = Int64 2, dayLow = Int64 1, priceChange = Float64 (Fin 10),
             percentageChange = Fin 25, yearHigh = Float64 (Fin 150),
             yearLow = Int64 1, totalMktCap = None, pe = Some (Float64 (Fin 12)),
             vwap = None\<rparr>),
      (0, \<lparr>symbol = Some (JStr ''X''), index = Some (JStr ''NIFTY 50''),
             lastPrice = Float64 (Fin 96), previousClose = Int64 64, openPrice = Int64 1,
             dayHigh = Int64 2, dayLow = Int64 1, priceChange = Float64 (Fin 32),
             percentageChange = Fin 50, yearHigh = Float64 (Fin 100),
             yearLow = Int64 1, totalMktCap = None, pe = Some (Float64 NaN),
             vwap = None\<rparr>),
      (1, \<lparr>symbol = Some (JStr ''Z''), index = Some (JStr ''NIFTY 50''),
             lastPrice = Float64 (Fin 5), previousClose = Int64 0, openPrice = Int64 1,
             dayHigh = Int64 2, dayLow = Int64 1, priceChange = Float64 (Fin 5),
             percentageChange = PInf, yearHigh = Float64 NaN, yearLow = Int64 1,
             totalMktCap = None, pe = Some (Float64 NaN), vwap = None\<rparr>),
      (3, \<lparr>symbol = Some (JStr ''W''), index = Some (JStr ''NIFTY 100''),
             lastPrice = Float64 NaN, previousClose = Int64 40, openPrice = Int64 1,
             dayHigh = Int64 2, dayLow = Int64 1, priceChange = Float64 NaN,
             percentageChange = NaN, yearHigh = Float64 NaN, yearLow = Int64 1,
             totalMktCap = None, pe = Some (Float64 NaN), vwap = None\<rparr>)]"

text \<open>A frame whose records lack \<open>totalTradedVolume\<close>.\<close>

definition no_volume_frame :: frame where
  "no_volume_frame =
     setitem_scalar
       (DataFrame
          [AList.delete ''totalTradedVolume''
             (stock ''X'' (JInt 96) (JInt 64) (JInt 100))])
       ''index'' (JStr ''NIFTY 50'')"

text \<open>What the Fetcher delivers when the provider answers every request with no records.\<close>

definition empty_frame :: frame where
  "empty_frame =
     concat_frames (map (\<lambda>index. setitem_scalar (DataFrame []) ''index'' (JStr index)) indices)"

text \<open>A provider whose fifth answer, for \<open>NIFTY 100\<close>, fails.\<close>

definition failing_provider :: "string \<Rightarrow> error + payload" where
  "failing_provider url =
     (if url = url_of ''NIFTY 100'' then Inl (ProviderError ''timed out'') else ex_provider url)"

text \<open>A process that has just started: nothing is cached, nothing was requested.\<close>

definition fresh_process :: process where
  "fresh_process = \<lparr>clock = 0, memo = None, lru = None, requests = []\<rparr>"

text \<open>
  A provider that changes: it answers as \<open>ex_provider\<close> during the first 30 seconds and
  with no records afterwards.
\<close>

definition ex_world :: provider where
  "ex_world t = (if t < 30 then ex_provider else (\<lambda>url. Inr (Some [])))"

text \<open>The process after its first call of \<open>get_stock_data\<close> under \<open>ex_world\<close>.\<close>

definition warm_process :: process where
  "warm_process =
     \<lparr>clock = 0, memo = Some (25, ex_frame), lru = Some ex_table,
      requests = map url_of indices\<rparr>"

text \<open>
  Eighteen records of one index with the same \<open>yearHigh\<close>, under the symbols \<open>A\<close> to
  \<open>R\<close>.
\<close>

definition tied_frame :: frame where
  "tied_frame =
     \<lparr>columns =
        [''symbol'', ''totalTradedVolume'', ''lastPrice'', ''previousClose'', ''open'',
         ''dayHigh'', ''dayLow'', ''yearHigh'', ''yearLow'', ''index''],
      rows =
        map (\<lambda>k. stock [char_of (65 + k)] (JInt 96) (JInt 64) (JFloat (Fin 100)) @
                  [(''index'', JStr ''NIFTY 50'')])
          [0..<18]\<rparr>"

section \<open>Properties of the Fetcher\<close>

lemma fetch_loop_success:
  assumes "\<forall>index\<in>set names. nsefetch (url_of index) = Inr (Some (recs index))"
  shows "fetch_loop nsefetch names all_data reqs =
     (Inr (all_data @ map (\<lambda>index. setitem_scalar (DataFrame (recs index)) ''index'' (JStr index)) names),
      reqs @ map url_of names)"
  using assms by (induction names arbitrary: all_data reqs) (simp_all add: Let_def)

lemma distinct_urls: "distinct (map url_of indices)"
  by (simp add: indices_def url_of_def replace_space_def)

lemma ex_fetch:
  "get_all_indices_data_body ex_provider reqs = (Inr ex_frame, reqs @ map url_of indices)"
  by (simp add: get_all_indices_data_body_def indices_def ex_provider_def ex_records_def
      ex_frame_def url_of_def replace_space_def concat_frames_def setitem_scalar_def
      DataFrame_def stock_def)

lemma ex_provider_answers:
  "list_all (\<lambda>index. ex_provider (url_of index) = Inr (Some (ex_records index))) indices"
  by (simp add: ex_provider_def indices_def url_of_def replace_space_def)

text \<open>
  Claim C6. When the provider answers the request of every index with a list of
  records, the Fetcher issues eleven requests, one for each index name and in the
  order of the list, every record it returns gets the field \<open>index\<close> with the queried
  name, and the rows of the merged frame are the records in the order of the index
  list and, within an index, in the order of the provider's answer.
\<close>

theorem fetcher_tags_and_orders:
  assumes "\<forall>index\<in>set indices. nsefetch (url_of index) = Inr (Some (recs index))"
  shows "\<exists>df. get_all_indices_data_body nsefetch reqs = (Inr df, reqs @ map url_of indices) \<and>
           rows df =
             concat (map (\<lambda>index. map (AList.update ''index'' (JStr index)) (recs index)) indices) \<and>
           (\<forall>index r. map_of (AList.update ''index'' (JStr index) r) ''index'' = Some (JStr index)) \<and>
           length indices = 11 \<and> distinct (map url_of indices)"
proof -
  let ?frames = "map (\<lambda>index. setitem_scalar (DataFrame (recs index)) ''index'' (JStr index)) indices"
  have "get_all_indices_data_body nsefetch reqs =
      (Inr (concat_frames ?frames), reqs @ map url_of indices)"
    by (simp add: get_all_indices_data_body_def fetch_loop_success [OF assms])
  moreover have "rows (concat_frames ?frames) =
      concat (map (\<lambda>index. map (AList.update ''index'' (JStr index)) (recs index)) indices)"
    by (simp add: concat_frames_def setitem_scalar_def DataFrame_def comp_def)
  moreover have "length indices = 11" by (simp add: indices_def)
  ultimately show ?thesis
    using distinct_urls by (simp add: update_Some_unfold)
qed

theorem fetcher_tags_and_orders_witness:
  "list_all (\<lambda>index. ex_provider (url_of index) = Inr (Some (ex_records index))) indices \<and>
   get_all_indices_data_body ex_provider [] = (Inr ex_frame, map url_of indices) \<and>
   rows ex_frame =
     concat (map (\<lambda>index. map (AList.update ''index'' (JStr index)) (ex_records index)) indices) \<and>
   map (\<lambda>r. (map_of r ''symbol'', map_of r ''index'')) (rows ex_frame) =
     [(Some (JStr ''X''), Some (JStr ''NIFTY 50'')), (Some (JStr ''Z''), Some (JStr ''NIFTY 50'')),
      (Some (JStr ''Y''), Some (JStr ''NIFTY 100'')), (Some (JStr ''W''), Some (JStr ''NIFTY 100''))]"
proof -
  have h: "\<forall>index\<in>set indices. ex_provider (url_of index) = Inr (Some (ex_records index))"
    using ex_provider_answers by (simp add: list_all_iff)
  have "map (\<lambda>r. (map_of r ''symbol'', map_of r ''index'')) (rows ex_frame) =
     [(Some (JStr ''X''), Some (JStr ''NIFTY 50'')), (Some (JStr ''Z''), Some (JStr ''NIFTY 50'')),
      (Some (JStr ''Y''), Some (JStr ''NIFTY 100'')), (Some (JStr ''W''), Some (JStr ''NIFTY 100''))]"
    by (simp add: ex_frame_def stock_def)
  then show ?thesis
    using fetcher_tags_and_orders [OF h, of "[]"] ex_provider_answers
    by (simp add: ex_fetch)
qed

lemma fetch_loop_failure:
  assumes "k < length names"
    and "\<forall>name\<in>set (take k names). \<exists>recs. nsefetch (url_of name) = Inr (Some recs)"
    and "nsefetch (url_of (names ! k)) = Inl e"
  shows "fetch_loop nsefetch names all_data reqs = (Inl e, reqs @ map url_of (take (Suc k) names))"
  using assms
proof (induction names arbitrary: k all_data reqs)
  case Nil
  then show ?case by simp
next
  case (Cons name names)
  show ?case
  proof (cases k)
    case 0
    with Cons.prems show ?thesis by (simp add: Let_def)
  next
    case (Suc k')
    from Cons.prems(2) Suc obtain recs where
      here: "nsefetch (url_of name) = Inr (Some recs)" by auto
    have "\<forall>name\<in>set (take k' names). \<exists>recs. nsefetch (url_of name) = Inr (Some recs)"
      using Cons.prems(2) Suc by simp
    moreover have "k' < length names" "nsefetch (url_of (names ! k')) = Inl e"
      using Cons.prems(1,3) Suc by simp_all
    ultimately have "fetch_loop nsefetch names
        (all_data @ [setitem_scalar (DataFrame recs) ''index'' (JStr name)]) (reqs @ [url_of name]) =
        (Inl e, (reqs @ [url_of name]) @ map url_of (take (Suc k') names))"
      using Cons.IH by blast
    with here Suc show ?thesis by (simp add: Let_def)
  qed
qed

lemma get_all_indices_data_miss:
  assumes "\<forall>expires df. memo s = Some (expires, df) \<longrightarrow> expires \<le> clock s"
  shows "get_all_indices_data world s =
     (case get_all_indices_data_body (world (clock s)) (requests s) of
        (Inl e, reqs) \<Rightarrow> (Inl e, s\<lparr>requests := reqs\<rparr>)
      | (Inr df, reqs) \<Rightarrow>
          (Inr df, s\<lparr>memo := Some (clock s + CACHE_TIMEOUT, df), requests := reqs\<rparr>))"
  using assms by (cases "memo s") (auto simp: get_all_indices_data_def Let_def)

text \<open>
  Claim C7. When the request of one index fails, those before it having been answered,
  the fetch stops there: the error leaves the Fetcher and \<open>get_stock_data\<close>, the
  requests of the cycle are those up to the failing one, each issued once, and the
  process keeps no frame and no table, so the rows already fetched are lost.
\<close>

theorem fetch_failure_aborts:
  assumes "k < length indices"
    and "\<forall>name\<in>set (take k indices). \<exists>recs. world (clock s) (url_of name) = Inr (Some recs)"
    and "world (clock s) (url_of (indices ! k)) = Inl e"
    and "\<forall>expires df. memo s = Some (expires, df) \<longrightarrow> expires \<le> clock s"
    and "lru s = None"
  shows "get_all_indices_data_body (world (clock s)) (requests s) =
           (Inl e, requests s @ map url_of (take (Suc k) indices)) \<and>
         distinct (map url_of (take (Suc k) indices)) \<and>
         get_all_indices_data world s =
           (Inl e, s\<lparr>requests := requests s @ map url_of (take (Suc k) indices)\<rparr>) \<and>
         get_stock_data to_number rnd argsort world s =
           (Inl e, s\<lparr>requests := requests s @ map url_of (take (Suc k) indices)\<rparr>)"
proof -
  have body: "get_all_indices_data_body (world (clock s)) (requests s) =
      (Inl e, requests s @ map url_of (take (Suc k) indices))"
    using fetch_loop_failure [OF assms(1-3)] by (simp add: get_all_indices_data_body_def)
  have "distinct (take (Suc k) (map url_of indices))"
    using distinct_urls by (rule distinct_take)
  then have dist: "distinct (map url_of (take (Suc k) indices))"
    by (simp add: take_map)
  have fetch: "get_all_indices_data world s =
      (Inl e, s\<lparr>requests := requests s @ map url_of (take (Suc k) indices)\<rparr>)"
    using get_all_indices_data_miss [OF assms(4)] body by simp
  have "get_stock_data to_number rnd argsort world s =
      (Inl e, s\<lparr>requests := requests s @ map url_of (take (Suc k) indices)\<rparr>)"
    using fetch assms(5) by (simp add: get_stock_data_def)
  with body dist fetch show ?thesis by simp
qed

theorem fetch_failure_aborts_witness:
  "indices ! 4 = ''NIFTY 100'' \<and>
   list_all (\<lambda>name. \<exists>recs. failing_provider (url_of name) = Inr (Some recs)) (take 4 indices) \<and>
   failing_provider (url_of (indices ! 4)) = Inl (ProviderError ''timed out'') \<and>
   get_stock_data digits_to_number ex_round stable_argsort (\<lambda>t. failing_provider) fresh_process =
     (Inl (ProviderError ''timed out''),
      \<lparr>clock = 0, memo = None, lru = None, requests = map url_of (take 5 indices)\<rparr>)"
proof -
  have ok: "list_all (\<lambda>name. \<exists>recs. failing_provider (url_of name) = Inr (Some recs)) (take 4 indices)"
    by (simp add: failing_provider_def ex_provider_def indices_def url_of_def replace_space_def)
  then have 1: "\<forall>name\<in>set (take 4 indices). \<exists>recs. failing_provider (url_of name) = Inr (Some recs)"
    by (simp only: list_all_iff)
  have 2: "failing_provider (url_of (indices ! 4)) = Inl (ProviderError ''timed out'')"
    by (simp add: failing_provider_def indices_def)
  have 3: "(4::nat) < length indices" by (simp add: indices_def)
  have 4: "\<forall>expires df. memo fresh_process = Some (expires, df) \<longrightarrow> expires \<le> clock fresh_process"
    by (simp add: fresh_process_def)
  have 5: "lru fresh_process = None" by (simp add: fresh_process_def)
  have 6: "indices ! 4 = ''NIFTY 100''" "take (Suc 4) indices = take 5 indices"
    by (simp_all add: indices_def)
  have "get_stock_data digits_to_number ex_round stable_argsort (\<lambda>t. failing_provider) fresh_process =
      (Inl (ProviderError ''timed out''),
       fresh_process\<lparr>requests := requests fresh_process @ map url_of (take (Suc 4) indices)\<rparr>)"
    using fetch_failure_aborts [of 4 "\<lambda>t. failing_provider" fresh_process
        "ProviderError ''timed out''" digits_to_number ex_round stable_argsort, OF 3 1 2 4 5]
    by simp
  then show ?thesis
    using ok 2 6 by (simp add: fresh_process_def)
qed

section \<open>Properties of the sort\<close>

lemma filter_by_position:
  "map (\<lambda>i. xs ! i) (filter (\<lambda>i. P (xs ! i)) [0..<length xs]) = filter P xs"
proof -
  have "filter P xs = filter P (map (\<lambda>i. xs ! i) [0..<length xs])"
    by (simp add: map_nth)
  also have "\<dots> = map (\<lambda>i. xs ! i) (filter (\<lambda>i. P (xs ! i)) [0..<length xs])"
    by (simp add: filter_map comp_def)
  finally show ?thesis by simp
qed

lemma nargsort_mset:
  assumes "is_argsort argsort"
  shows "mset (nargsort argsort items) = mset [0..<length items]"
proof -
  define f where "f = rev (filter (\<lambda>v. \<not> isna v) items)"
  define ni where "ni = rev (filter (\<lambda>i. \<not> isna (items ! i)) [0..<length items])"
  have len: "length ni = length f"
  proof -
    have "length (filter (\<lambda>i. \<not> isna (items ! i)) [0..<length items]) =
          length (map (\<lambda>i. items ! i) (filter (\<lambda>i. \<not> isna (items ! i)) [0..<length items]))"
      by simp
    also have "\<dots> = length (filter (\<lambda>v. \<not> isna v) items)"
      by (simp only: filter_by_position [of items "\<lambda>v. \<not> isna v"])
    finally show ?thesis by (simp add: ni_def f_def)
  qed
  have "NaN \<notin> set f" by (auto simp: f_def isna_def)
  with assms have p: "mset (argsort f) = mset [0..<length f]"
    by (simp add: is_argsort_def)
  have "mset (map (\<lambda>k. ni ! k) (argsort f)) = image_mset (\<lambda>k. ni ! k) (mset [0..<length ni])"
    using p len by (metis mset_map)
  also have "\<dots> = mset ni"
    by (metis map_nth mset_map)
  finally have "mset (map (\<lambda>k. ni ! k) (argsort f)) = mset ni" .
  then have "mset (nargsort argsort items) =
      mset (filter (\<lambda>i. \<not> isna (items ! i)) [0..<length items]) +
      mset (filter (\<lambda>i. isna (items ! i)) [0..<length items])"
    by (simp add: nargsort_def Let_def f_def ni_def)
  also have "\<dots> = mset [0..<length items]"
    by (metis add.commute multiset_partition mset_filter)
  finally show ?thesis .
qed


lemma nargsort_decomp:
  assumes "is_argsort argsort"
  shows "\<exists>a. nargsort argsort items = a @ filter (\<lambda>i. isna (items ! i)) [0..<length items] \<and>
             (\<forall>i\<in>set a. i < length items \<and> \<not> isna (items ! i)) \<and>
             sorted_wrt (\<lambda>i j. fle (items ! j) (items ! i)) a"
proof -
  define ni where "ni = rev (filter (\<lambda>i. \<not> isna (items ! i)) [0..<length items])"
  define f where "f = rev (filter (\<lambda>v. \<not> isna v) items)"
  define p where "p = argsort f"
  define a where "a = rev (map (\<lambda>k. ni ! k) p)"
  have f_ni: "f = map (\<lambda>i. items ! i) ni"
    unfolding f_def ni_def
    by (simp only: rev_map [symmetric] filter_by_position [of items "\<lambda>v. \<not> isna v"])
  have "NaN \<notin> set f" by (auto simp: f_def isna_def)
  with assms have perm: "mset p = mset [0..<length f]"
    and srt: "sorted_wrt (\<lambda>i j. fle (f ! i) (f ! j)) p"
    by (simp_all add: is_argsort_def p_def)
  have in_range: "k < length ni" if "k \<in> set p" for k
  proof -
    from that have "k \<in># mset p" by simp
    with perm have "k \<in> set [0..<length f]" by (metis set_mset_mset)
    then show ?thesis by (simp add: f_ni)
  qed
  have key: "f ! k = items ! (ni ! k)" if "k \<in> set p" for k
    using in_range [OF that] by (simp add: f_ni)
  have 1: "nargsort argsort items = a @ filter (\<lambda>i. isna (items ! i)) [0..<length items]"
    by (simp add: nargsort_def Let_def a_def p_def f_def ni_def)
  have 2: "\<forall>i\<in>set a. i < length items \<and> \<not> isna (items ! i)"
  proof
    fix i assume "i \<in> set a"
    then obtain k where "k \<in> set p" "i = ni ! k" by (auto simp: a_def)
    with in_range have "i \<in> set ni" by simp
    then show "i < length items \<and> \<not> isna (items ! i)" by (auto simp: ni_def)
  qed
  have "sorted_wrt (\<lambda>i j. fle (items ! (ni ! i)) (items ! (ni ! j))) p"
    by (rule sorted_wrt_mono_rel [OF _ srt]) (simp add: key)
  then have 3: "sorted_wrt (\<lambda>i j. fle (items ! j) (items ! i)) a"
    by (simp add: a_def sorted_wrt_rev sorted_wrt_map)
  from 1 2 3 show ?thesis by blast
qed

lemma fless_imp_fle: "fless a b \<Longrightarrow> fle a b"
  by (cases a; cases b) (auto simp: fle_def)

lemma fle_total: "a \<noteq> NaN \<Longrightarrow> b \<noteq> NaN \<Longrightarrow> \<not> fless a b \<Longrightarrow> fle b a"
  by (simp add: fle_def)

lemma fle_trans: "fle a b \<Longrightarrow> fle b c \<Longrightarrow> fle a c"
  by (cases a; cases b; cases c) (auto simp: fle_def)

lemma mset_insert_pos: "mset (insert_pos xs i js) = add_mset i (mset js)"
  by (induction js) auto

lemma sorted_insert_pos:
  assumes "NaN \<notin> set xs" "i < length xs" "\<forall>j\<in>set js. j < length xs"
    and "sorted_wrt (\<lambda>i j. fle (xs ! i) (xs ! j)) js"
  shows "sorted_wrt (\<lambda>i j. fle (xs ! i) (xs ! j)) (insert_pos xs i js)"
  using assms
proof (induction js)
  case Nil
  then show ?case by simp
next
  case (Cons j js)
  have nn: "xs ! k \<noteq> NaN" if "k < length xs" for k
    using Cons.prems(1) that by (metis nth_mem)
  show ?case
  proof (cases "fless (xs ! i) (xs ! j)")
    case True
    then have "fle (xs ! i) (xs ! j)" by (rule fless_imp_fle)
    moreover have "fle (xs ! i) (xs ! k)" if "k \<in> set js" for k
      using \<open>fle (xs ! i) (xs ! j)\<close> Cons.prems(4) that fle_trans by auto
    ultimately show ?thesis using True Cons.prems(4) by auto
  next
    case False
    then have ji: "fle (xs ! j) (xs ! i)"
      using fle_total nn Cons.prems(2,3) by simp
    have "set (insert_pos xs i js) = insert i (set js)"
      by (metis mset_insert_pos set_mset_add_mset_insert set_mset_mset)
    moreover have "sorted_wrt (\<lambda>i j. fle (xs ! i) (xs ! j)) (insert_pos xs i js)"
      using Cons by simp
    ultimately show ?thesis using False ji Cons.prems(4) by auto
  qed
qed

lemma stable_argsort_upto:
  assumes "NaN \<notin> set xs" "n \<le> length xs"
  shows "mset (foldl (\<lambda>acc i. insert_pos xs i acc) [] [0..<n]) = mset [0..<n] \<and>
         sorted_wrt (\<lambda>i j. fle (xs ! i) (xs ! j)) (foldl (\<lambda>acc i. insert_pos xs i acc) [] [0..<n])"
  using assms(2)
proof (induction n)
  case 0
  then show ?case by simp
next
  case (Suc n)
  let ?acc = "foldl (\<lambda>acc i. insert_pos xs i acc) [] [0..<n]"
  from Suc have ih: "mset ?acc = mset [0..<n]" "sorted_wrt (\<lambda>i j. fle (xs ! i) (xs ! j)) ?acc"
    by simp_all
  have "set ?acc = {0..<n}" by (metis ih(1) set_mset_mset set_upt)
  then have "\<forall>j\<in>set ?acc. j < length xs" using Suc.prems by auto
  then have "sorted_wrt (\<lambda>i j. fle (xs ! i) (xs ! j)) (insert_pos xs n ?acc)"
    using sorted_insert_pos [OF assms(1) _ _ ih(2), of n] Suc.prems by simp
  then show ?case by (simp add: mset_insert_pos ih(1))
qed

lemma is_argsort_stable_argsort: "is_argsort stable_argsort"
  unfolding is_argsort_def stable_argsort_def
  using stable_argsort_upto by blast

section \<open>Properties of the Normalizer/Ranker\<close>

lemma body_success:
  assumes "set numeric_columns \<union> set selected_columns \<subseteq> set (columns df)"
  shows "get_stock_data_body to_number rnd argsort df =
     Inr (map (\<lambda>i. (i, map (normalize_row to_number rnd df) (rows df) ! i))
            (nargsort argsort
               (map (\<lambda>r. sort_key (yearHigh r)) (map (normalize_row to_number rnd df) (rows df)))))"
proof -
  have "find (\<lambda>c. c \<notin> set (columns df)) numeric_columns = None"
    using assms by (auto simp: find_None_iff)
  moreover have "find (\<lambda>c. c \<notin> set (columns df)) selected_columns = None"
    using assms by (auto simp: find_None_iff)
  ultimately show ?thesis
    by (simp add: get_stock_data_body_def Let_def)
qed

lemma body_failure:
  assumes "\<not> set numeric_columns \<union> set selected_columns \<subseteq> set (columns df)"
  shows "\<exists>c. get_stock_data_body to_number rnd argsort df = Inl (KeyError c)"
proof (cases "find (\<lambda>c. c \<notin> set (columns df)) numeric_columns")
  case (Some c)
  then show ?thesis by (simp add: get_stock_data_body_def)
next
  case None
  then have "set numeric_columns \<subseteq> set (columns df)"
    by (auto simp: find_None_iff)
  with assms have "\<exists>c\<in>set selected_columns. c \<notin> set (columns df)" by auto
  then obtain c where "find (\<lambda>c. c \<notin> set (columns df)) selected_columns = Some c"
    by (metis find_None_iff option.exhaust)
  with None show ?thesis by (simp add: get_stock_data_body_def Let_def)
qed


lemma body_labels:
  assumes "is_argsort argsort" and "get_stock_data_body to_number rnd argsort df = Inr out"
  shows "mset (map fst out) = mset [0..<length (rows df)]"
proof -
  have cols: "set numeric_columns \<union> set selected_columns \<subseteq> set (columns df)"
    using assms(2) body_failure [of df to_number rnd argsort] by fastforce
  let ?rs = "map (normalize_row to_number rnd df) (rows df)"
  have "out = map (\<lambda>i. (i, ?rs ! i)) (nargsort argsort (map (\<lambda>r. sort_key (yearHigh r)) ?rs))"
    using assms(2) body_success [OF cols, of to_number rnd argsort] by simp
  then have "map fst out = nargsort argsort (map (\<lambda>r. sort_key (yearHigh r)) ?rs)"
    by (simp add: comp_def)
  then show ?thesis
    using nargsort_mset [OF assms(1)] by simp
qed

lemma body_rows:
  assumes "is_argsort argsort" and "get_stock_data_body to_number rnd argsort df = Inr out"
    and "(i, r) \<in> set out"
  shows "i < length (rows df) \<and> r = normalize_row to_number rnd df (rows df ! i)"
proof -
  have cols: "set numeric_columns \<union> set selected_columns \<subseteq> set (columns df)"
    using assms(2) body_failure [of df to_number rnd argsort] by fastforce
  let ?rs = "map (normalize_row to_number rnd df) (rows df)"
  have out: "out = map (\<lambda>i. (i, ?rs ! i)) (nargsort argsort (map (\<lambda>r. sort_key (yearHigh r)) ?rs))"
    using assms(2) body_success [OF cols, of to_number rnd argsort] by simp
  have "i \<in> set (map fst out)" using assms(3) by force
  then have "i \<in># mset (map fst out)" by simp
  then have "i \<in> set [0..<length (rows df)]"
    using body_labels [OF assms(1,2)] by (metis set_mset_mset)
  then have i: "i < length (rows df)" by simp
  from assms(3) out have "r = ?rs ! i" by auto
  with i show ?thesis by simp
qed

lemma isna_to_f64: "isna_num x \<Longrightarrow> to_f64 rnd x = NaN"
  by (cases x) (auto simp: isna_def)

lemma isna_num_sub: "isna_num a \<or> isna_num b \<Longrightarrow> isna_num (num_sub rnd a b)"
  by (cases a; cases b) (auto simp: isna_def fsub_def)

lemma isna_percentage:
  "isna_num lp \<or> isna_num pc \<Longrightarrow> isna (percentage rnd (num_sub rnd lp pc) pc)"
proof -
  assume "isna_num lp \<or> isna_num pc"
  then have "to_f64 rnd (num_sub rnd lp pc) = NaN"
    using isna_num_sub isna_to_f64 by blast
  then show ?thesis
    by (simp add: percentage_def fdiv_def fmul_def isna_def)
qed

lemma to_f64_zero: "zero_num x \<Longrightarrow> is_zero (to_f64 rnd x)"
  by (cases x) (auto simp: of_int64_def is_zero_def)

lemma to_f64_number:
  assumes "is_rounding rnd" and "\<not> isna_num x" and "\<not> zero_num x"
  shows "to_f64 rnd x \<noteq> NaN \<and> \<not> is_zero (to_f64 rnd x)"
proof (cases x)
  case (Int64 w)
  have w: "w \<noteq> 0" using assms(3) Int64 by simp
  have nz: "sint w \<noteq> 0" using w by (simp add: signed_eq_0_iff)
  have r: "real_of_int (sint w) \<noteq> 0" using w by (simp add: signed_eq_0_iff)
  have "1 \<le> \<bar>sint w\<bar>" using nz by linarith
  then have "1 \<le> \<bar>real_of_int (sint w)\<bar>" by linarith
  then have "rnd (real_of_int (sint w)) \<noteq> NaN \<and> \<not> is_zero (rnd (real_of_int (sint w)))"
    using assms(1) r unfolding is_rounding_def by blast
  moreover have "Fin (real_of_int (sint w)) \<noteq> NaN \<and> \<not> is_zero (Fin (real_of_int (sint w)))"
    using r by (simp add: is_zero_def)
  ultimately show ?thesis unfolding Int64 to_f64.simps of_int64_def by presburger
next
  case (Float64 v)
  then show ?thesis using assms(2,3) by (simp add: isna_def)
qed

lemma percentage_zero_zero:
  assumes "zero_num pc" and "zero_num change"
  shows "percentage rnd change pc = NaN"
proof -
  have "is_zero (to_f64 rnd pc)" "is_zero (to_f64 rnd change)"
    using assms to_f64_zero by blast+
  then have "fdiv rnd (to_f64 rnd change) (to_f64 rnd pc) = NaN"
    unfolding fdiv_def is_zero_def is_inf_def by auto
  then show ?thesis by (simp add: percentage_def fmul_def)
qed

lemma percentage_zero_close:
  assumes "is_rounding rnd" and "zero_num pc" and "\<not> isna_num change" and "\<not> zero_num change"
  shows "is_inf (percentage rnd change pc)"
proof -
  have b: "is_zero (to_f64 rnd pc)" using assms(2) by (rule to_f64_zero)
  have a: "to_f64 rnd change \<noteq> NaN \<and> \<not> is_zero (to_f64 rnd change)"
    using to_f64_number [OF assms(1,3,4)] .
  have "is_inf (fdiv rnd (to_f64 rnd change) (to_f64 rnd pc))"
    using a b by (auto simp: fdiv_def is_zero_def is_inf_def signed_inf_def)
  then show ?thesis
    by (auto simp: percentage_def fmul_def is_zero_def is_inf_def signed_inf_def)
qed

lemma percentage_finite:
  assumes "to_f64 rnd change = Fin c" and "to_f64 rnd pc = Fin b" and "c \<noteq> 0" and "b \<noteq> 0"
    and "rnd (c / b) = Fin q" and "q \<noteq> 0"
  shows "percentage rnd change pc = rnd (q * 100)"
  using assms by (simp add: percentage_def fdiv_def fmul_def is_zero_def is_inf_def)

lemma coerce_cell_missing:
  "c = None \<or> c = Some JNull \<or> (\<exists>s. c = Some (JStr s) \<and> (s = [] \<or> to_number s = None))
     \<Longrightarrow> coerce_cell to_number c = Float64 NaN"
  by (auto simp: coerce_cell_def)

lemma to_numeric_missing:
  "map_of r c = None \<or> map_of r c = Some JNull \<or>
   (\<exists>s. map_of r c = Some (JStr s) \<and> (s = [] \<or> to_number s = None))
     \<Longrightarrow> isna_num (to_numeric to_number rnd df c r)"
  using coerce_cell_missing [of "map_of r c" to_number]
  by (auto simp: to_numeric_def isna_def Let_def)

lemma is_rounding_ex_round: "is_rounding ex_round"
  by (simp add: is_rounding_def ex_round_def is_zero_def)

lemma ex_frame_columns:
  "set numeric_columns \<union> set selected_columns \<subseteq> set (columns ex_frame)"
  by (simp add: numeric_columns_def selected_columns_def ex_frame_def)

lemma ex_frame_rows:
  "rows ex_frame =
     [stock ''X'' (JInt 96) (JInt 64) (JInt 100) @ [(''index'', JStr ''NIFTY 50'')],
      stock ''Z'' (JInt 5) (JInt 0) (JStr ''-'') @ [(''index'', JStr ''NIFTY 50'')],
      stock ''Y'' (JStr ''50'') (JInt 40) (JInt 150) @
        [(''pe'', JFloat (Fin 12)), (''index'', JStr ''NIFTY 100'')],
      stock ''W'' JNull (JInt 40) JNull @
        [(''pe'', JStr ''n/a''), (''index'', JStr ''NIFTY 100'')]]"
  by (simp add: ex_frame_def)


lemma ex_frame_eval:
  "get_stock_data_body digits_to_number ex_round stable_argsort ex_frame = Inr ex_table"
  by code_simp

subsection \<open>Price change\<close>



subsection \<open>Percentage change\<close>

text \<open>
  Claim C1, as amended. In every row of the table, \<open>percentageChange\<close> is the float64
  result of \<open>(priceChange / previousClose) * 100\<close>, and computing it raises nothing.
  It is missing when \<open>lastPrice\<close> or \<open>previousClose\<close> is missing, and when
  \<open>previousClose\<close> and \<open>priceChange\<close> are both zero. It is an infinity, which is not
  the missing-value marker, when \<open>previousClose\<close> is zero and \<open>priceChange\<close> is a number
  other than zero. When \<open>priceChange\<close> and \<open>previousClose\<close> are finite and not zero, it
  is the rounded quotient times 100, rounded again (where the rounded quotient is
  finite and not zero).
\<close>

theorem percentageChange_float_quotient:
  assumes "is_argsort argsort" and "is_rounding rnd"
    and "set numeric_columns \<union> set selected_columns \<subseteq> set (columns df)"
  shows "\<exists>out. get_stock_data_body to_number rnd argsort df = Inr out \<and>
           (\<forall>(i, r) \<in> set out.
              percentageChange r =
                fmul rnd (fdiv rnd (to_f64 rnd (num_sub rnd (lastPrice r) (previousClose r)))
                            (to_f64 rnd (previousClose r))) (Fin 100) \<and>
              (isna_num (lastPrice r) \<or> isna_num (previousClose r) \<longrightarrow> isna (percentageChange r)) \<and>
              (zero_num (previousClose r) \<and> zero_num (priceChange r) \<longrightarrow>
                 isna (percentageChange r)) \<and>
              (zero_num (previousClose r) \<and> \<not> isna_num (priceChange r) \<and>
               \<not> zero_num (priceChange r) \<longrightarrow>
                 \<not> isna (percentageChange r) \<and> percentageChange r \<in> {PInf, NInf}) \<and>
              (\<forall>c b q. to_f64 rnd (priceChange r) = Fin c \<and> to_f64 rnd (previousClose r) = Fin b \<and>
                       c \<noteq> 0 \<and> b \<noteq> 0 \<and> rnd (c / b) = Fin q \<and> q \<noteq> 0 \<longrightarrow>
                 percentageChange r = rnd (q * 100)))"
proof -
  obtain out where out: "get_stock_data_body to_number rnd argsort df = Inr out"
    using body_success [OF assms(3)] by blast
  have "percentageChange r =
          fmul rnd (fdiv rnd (to_f64 rnd (num_sub rnd (lastPrice r) (previousClose r)))
                      (to_f64 rnd (previousClose r))) (Fin 100) \<and>
        (isna_num (lastPrice r) \<or> isna_num (previousClose r) \<longrightarrow> isna (percentageChange r)) \<and>
        (zero_num (previousClose r) \<and> zero_num (priceChange r) \<longrightarrow> isna (percentageChange r)) \<and>
        (zero_num (previousClose r) \<and> \<not> isna_num (priceChange r) \<and>
         \<not> zero_num (priceChange r) \<longrightarrow>
           \<not> isna (percentageChange r) \<and> percentageChange r \<in> {PInf, NInf}) \<and>
        (\<forall>c b q. to_f64 rnd (priceChange r) = Fin c \<and> to_f64 rnd (previousClose r) = Fin b \<and>
                 c \<noteq> 0 \<and> b \<noteq> 0 \<and> rnd (c / b) = Fin q \<and> q \<noteq> 0 \<longrightarrow>
           percentageChange r = rnd (q * 100))"
    if "(i, r) \<in> set out" for i r
  proof -
    have r: "r = normalize_row to_number rnd df (rows df ! i)"
      using body_rows [OF assms(1) out that] by simp
    have 0: "priceChange r = num_sub rnd (lastPrice r) (previousClose r)"
      by (simp add: r normalize_row_def Let_def)
    have p: "percentageChange r = percentage rnd (priceChange r) (previousClose r)"
      by (simp add: r normalize_row_def Let_def)
    have 1: "percentageChange r =
        fmul rnd (fdiv rnd (to_f64 rnd (num_sub rnd (lastPrice r) (previousClose r)))
                    (to_f64 rnd (previousClose r))) (Fin 100)"
      using p 0 by (simp add: percentage_def)
    have 2: "isna_num (lastPrice r) \<or> isna_num (previousClose r) \<longrightarrow> isna (percentageChange r)"
      using p 0 isna_percentage by simp
    have 3: "zero_num (previousClose r) \<and> zero_num (priceChange r) \<longrightarrow> isna (percentageChange r)"
      using p percentage_zero_zero by (simp add: isna_def)
    have 4: "zero_num (previousClose r) \<and> \<not> isna_num (priceChange r) \<and>
         \<not> zero_num (priceChange r) \<longrightarrow>
           \<not> isna (percentageChange r) \<and> percentageChange r \<in> {PInf, NInf}"
      using p percentage_zero_close [OF assms(2), of "previousClose r" "priceChange r"]
      by (auto simp: isna_def is_inf_def)
    have 5: "\<forall>c b q. to_f64 rnd (priceChange r) = Fin c \<and> to_f64 rnd (previousClose r) = Fin b \<and>
                 c \<noteq> 0 \<and> b \<noteq> 0 \<and> rnd (c / b) = Fin q \<and> q \<noteq> 0 \<longrightarrow>
           percentageChange r = rnd (q * 100)"
      using p percentage_finite by simp
    from 1 2 3 4 5 show ?thesis by blast
  qed
  with out show ?thesis by blast
qed

theorem percentageChange_float_quotient_witness:
  "is_argsort stable_argsort \<and> is_rounding ex_round \<and>
   set numeric_columns \<union> set selected_columns \<subseteq> set (columns ex_frame) \<and>
   get_stock_data_body digits_to_number ex_round stable_argsort ex_frame = Inr ex_table \<and>
   ex_table ! 0 \<in> set ex_table \<and>
   priceChange (snd (ex_table ! 0)) = Float64 (Fin 10) \<and>
   previousClose (snd (ex_table ! 0)) = Int64 40 \<and>
   ex_round (10 / 40) = Fin (1 / 4) \<and>
   percentageChange (snd (ex_table ! 0)) = ex_round (1 / 4 * 100) \<and>
   ex_table ! 3 \<in> set ex_table \<and>
   isna_num (lastPrice (snd (ex_table ! 3))) \<and> isna (percentageChange (snd (ex_table ! 3)))"
  using percentageChange_float_quotient
      [OF is_argsort_stable_argsort is_rounding_ex_round ex_frame_columns, of digits_to_number]
    ex_frame_columns is_argsort_stable_argsort is_rounding_ex_round
  by (simp add: ex_frame_eval) (simp add: ex_table_def isna_def ex_round_def)

text \<open>
  The claim as stated fails on the row \<open>Z\<close> of the example: its \<open>previousClose\<close> is
  zero, its \<open>lastPrice\<close> is 5, and its \<open>percentageChange\<close> is \<open>+\<infinity>\<close>, not the
  missing-value marker. No rounding takes part: the quotient of a number other than
  zero by zero is an infinity, and so is the product of an infinity and 100.
\<close>

theorem percentageChange_zero_close_counterexample:
  "get_stock_data_body digits_to_number ex_round stable_argsort ex_frame = Inr ex_table \<and>
   lastPrice (snd (ex_table ! 2)) = Float64 (Fin 5) \<and>
   previousClose (snd (ex_table ! 2)) = Int64 0 \<and>
   percentageChange (snd (ex_table ! 2)) = PInf \<and>
   \<not> isna (percentageChange (snd (ex_table ! 2)))"
  by (simp add: ex_frame_eval) (simp add: ex_table_def isna_def)

subsection \<open>Numeric coercion\<close>

lemma normalize_row_numeric:
  "lastPrice (normalize_row to_number rnd df r) = to_numeric to_number rnd df ''lastPrice'' r"
  "previousClose (normalize_row to_number rnd df r) = to_numeric to_number rnd df ''previousClose'' r"
  "openPrice (normalize_row to_number rnd df r) = to_numeric to_number rnd df ''open'' r"
  "dayHigh (normalize_row to_number rnd df r) = to_numeric to_number rnd df ''dayHigh'' r"
  "dayLow (normalize_row to_number rnd df r) = to_numeric to_number rnd df ''dayLow'' r"
  "yearHigh (normalize_row to_number rnd df r) = to_numeric to_number rnd df ''yearHigh'' r"
  "yearLow (normalize_row to_number rnd df r) = to_numeric to_number rnd df ''yearLow'' r"
  by (simp_all add: normalize_row_def Let_def)


text \<open>
  Claim C3, as amended. For every frame that has the eight numeric columns and the
  columns \<open>symbol\<close> and \<open>index\<close>, the Normalizer/Ranker returns a table and raises
  nothing: the table holds every row of the frame once, each numeric cell is the
  coercion of its source cell, and an absent cell, \<open>null\<close>, the empty text and a text
  that is not a number are coerced to the missing-value marker.
\<close>

theorem numeric_coercion_total:
  assumes "is_argsort argsort"
    and "set numeric_columns \<union> set selected_columns \<subseteq> set (columns df)"
  shows "\<exists>out. get_stock_data_body to_number rnd argsort df = Inr out \<and>
           mset (map fst out) = mset [0..<length (rows df)] \<and>
           (\<forall>(i, r) \<in> set out.
              lastPrice r = to_numeric to_number rnd df ''lastPrice'' (rows df ! i) \<and>
              previousClose r = to_numeric to_number rnd df ''previousClose'' (rows df ! i) \<and>
              openPrice r = to_numeric to_number rnd df ''open'' (rows df ! i) \<and>
              dayHigh r = to_numeric to_number rnd df ''dayHigh'' (rows df ! i) \<and>
              dayLow r = to_numeric to_number rnd df ''dayLow'' (rows df ! i) \<and>
              yearHigh r = to_numeric to_number rnd df ''yearHigh'' (rows df ! i) \<and>
              yearLow r = to_numeric to_number rnd df ''yearLow'' (rows df ! i)) \<and>
           (\<forall>c x. map_of x c = None \<or> map_of x c = Some JNull \<or>
                (\<exists>s. map_of x c = Some (JStr s) \<and> (s = [] \<or> to_number s = None)) \<longrightarrow>
                isna_num (to_numeric to_number rnd df c x))"
proof -
  obtain out where out: "get_stock_data_body to_number rnd argsort df = Inr out"
    using body_success [OF assms(2)] by blast
  have row: "r = normalize_row to_number rnd df (rows df ! i)" if "(i, r) \<in> set out" for i r
    using body_rows [OF assms(1) out that] by simp
  have "\<forall>(i, r) \<in> set out.
      lastPrice r = to_numeric to_number rnd df ''lastPrice'' (rows df ! i) \<and>
      previousClose r = to_numeric to_number rnd df ''previousClose'' (rows df ! i) \<and>
      openPrice r = to_numeric to_number rnd df ''open'' (rows df ! i) \<and>
      dayHigh r = to_numeric to_number rnd df ''dayHigh'' (rows df ! i) \<and>
      dayLow r = to_numeric to_number rnd df ''dayLow'' (rows df ! i) \<and>
      yearHigh r = to_numeric to_number rnd df ''yearHigh'' (rows df ! i) \<and>
      yearLow r = to_numeric to_number rnd df ''yearLow'' (rows df ! i)"
    by (auto dest!: row simp: normalize_row_numeric)
  moreover have "\<forall>c x. map_of x c = None \<or> map_of x c = Some JNull \<or>
      (\<exists>s. map_of x c = Some (JStr s) \<and> (s = [] \<or> to_number s = None)) \<longrightarrow>
      isna_num (to_numeric to_number rnd df c x)"
    using to_numeric_missing by blast
  ultimately show ?thesis
    using out body_labels [OF assms(1) out] by blast
qed

theorem numeric_coercion_total_witness:
  "is_argsort stable_argsort \<and>
   set numeric_columns \<union> set selected_columns \<subseteq> set (columns ex_frame) \<and>
   get_stock_data_body digits_to_number ex_round stable_argsort ex_frame = Inr ex_table \<and>
   map fst ex_table = [2, 0, 1, 3] \<and> length (rows ex_frame) = 4 \<and>
   ex_table ! 2 \<in> set ex_table \<and>
   map_of (rows ex_frame ! 1) ''yearHigh'' = Some (JStr ''-'') \<and>
   digits_to_number ''-'' = None \<and>
   isna_num (yearHigh (snd (ex_table ! 2))) \<and>
   ex_table ! 3 \<in> set ex_table \<and>
   map_of (rows ex_frame ! 3) ''lastPrice'' = Some JNull \<and>
   isna_num (lastPrice (snd (ex_table ! 3)))"
  using numeric_coercion_total
      [OF is_argsort_stable_argsort ex_frame_columns, of digits_to_number ex_round]
    ex_frame_columns is_argsort_stable_argsort
  by (simp add: ex_frame_eval)
     (simp add: ex_table_def isna_def ex_frame_rows stock_def digits_to_number_def)

text \<open>
  The claim as stated, for every input collection, fails on a frame without the
  column \<open>totalTradedVolume\<close>: line 51 raises \<open>KeyError\<close>.
\<close>

theorem numeric_coercion_counterexample:
  "''totalTradedVolume'' \<notin> set (columns no_volume_frame) \<and>
   get_stock_data_body digits_to_number ex_round stable_argsort no_volume_frame =
     Inl (KeyError ''totalTradedVolume'')"
  by (simp add: get_stock_data_body_def no_volume_frame_def setitem_scalar_def DataFrame_def
      stock_def numeric_columns_def AList.delete_eq)

subsection \<open>Optional columns\<close>



section \<open>Properties of the ranking\<close>

lemma nargsort_split:
  assumes "is_argsort argsort"
  obtains a where
    "nargsort argsort items = a @ filter (\<lambda>i. isna (items ! i)) [0..<length items]"
    "\<And>k. k < length a \<Longrightarrow> \<not> isna (items ! (a ! k))"
    "\<And>i j. i < j \<Longrightarrow> j < length a \<Longrightarrow> fle (items ! (a ! j)) (items ! (a ! i))"
proof -
  from nargsort_decomp [OF assms, of items] obtain a where
    order: "nargsort argsort items = a @ filter (\<lambda>i. isna (items ! i)) [0..<length items]"
    and a: "\<forall>i\<in>set a. i < length items \<and> \<not> isna (items ! i)"
    and srt: "sorted_wrt (\<lambda>i j. fle (items ! j) (items ! i)) a"
    by blast
  have "\<not> isna (items ! (a ! k))" if "k < length a" for k
    using a that by simp
  moreover have "fle (items ! (a ! j)) (items ! (a ! i))" if "i < j" "j < length a" for i j
    using srt that by (simp add: sorted_wrt_iff_nth_less)
  ultimately show ?thesis using order that by blast
qed

lemma nan_positions:
  assumes "k < length (filter (\<lambda>i. isna (items ! i)) [0..<length items])"
  shows "isna (items ! (filter (\<lambda>i. isna (items ! i)) [0..<length items] ! k))"
proof -
  have "filter (\<lambda>i. isna (items ! i)) [0..<length items] ! k
      \<in> set (filter (\<lambda>i. isna (items ! i)) [0..<length items])"
    using assms by (rule nth_mem)
  then show ?thesis by simp
qed

lemma nan_positions_ascend:
  assumes "i < j" and "j < length (filter (\<lambda>i. isna (items ! i)) [0..<length items])"
  shows "filter (\<lambda>i. isna (items ! i)) [0..<length items] ! i
       < filter (\<lambda>i. isna (items ! i)) [0..<length items] ! j"
proof -
  have "sorted_wrt (<) (filter (\<lambda>i. isna (items ! i)) [0..<length items])"
    by (rule sorted_wrt_filter) simp
  then show ?thesis using assms by (simp add: sorted_wrt_iff_nth_less)
qed


lemma nargsort_ranked:
  assumes "is_argsort argsort"
  shows "(\<forall>i. Suc i < length (nargsort argsort items) \<and>
              \<not> isna (items ! (nargsort argsort items ! i)) \<and>
              \<not> isna (items ! (nargsort argsort items ! Suc i)) \<longrightarrow>
              fle (items ! (nargsort argsort items ! Suc i)) (items ! (nargsort argsort items ! i))) \<and>
         (\<forall>i j. i < j \<and> j < length (nargsort argsort items) \<and>
              isna (items ! (nargsort argsort items ! i)) \<longrightarrow>
              isna (items ! (nargsort argsort items ! j))) \<and>
         (\<forall>i j. i < j \<and> j < length (nargsort argsort items) \<and>
              isna (items ! (nargsort argsort items ! i)) \<and>
              isna (items ! (nargsort argsort items ! j)) \<longrightarrow>
              nargsort argsort items ! i < nargsort argsort items ! j)"
proof -
  define nn where "nn = filter (\<lambda>i. isna (items ! i)) [0..<length items]"
  define ord where "ord = nargsort argsort items"
  obtain a where order: "ord = a @ nn"
    and a: "\<And>k. k < length a \<Longrightarrow> \<not> isna (items ! (a ! k))"
    and srt: "\<And>i j. i < j \<Longrightarrow> j < length a \<Longrightarrow> fle (items ! (a ! j)) (items ! (a ! i))"
    using nargsort_split [OF assms, of items] unfolding nn_def ord_def by blast
  have left: "\<not> isna (items ! (ord ! k))" if "k < length a" for k
    using that a by (simp add: order nth_append)
  have right: "isna (items ! (ord ! k))" if "\<not> k < length a" "k < length ord" for k
  proof -
    have "k - length a < length nn" using that by (simp add: order)
    then have "isna (items ! (nn ! (k - length a)))"
      unfolding nn_def by (rule nan_positions)
    with that show ?thesis by (simp add: order nth_append)
  qed
  have 1: "fle (items ! (ord ! Suc i)) (items ! (ord ! i))"
    if "Suc i < length ord" "\<not> isna (items ! (ord ! i))" "\<not> isna (items ! (ord ! Suc i))" for i
  proof -
    have s: "Suc i < length a" using right [of "Suc i"] that by blast
    then have "fle (items ! (a ! Suc i)) (items ! (a ! i))" using srt [of i "Suc i"] by simp
    with s show ?thesis by (simp add: order nth_append)
  qed
  have 2: "isna (items ! (ord ! j))" if "i < j" "j < length ord" "isna (items ! (ord ! i))" for i j
  proof -
    have "\<not> i < length a" using left [of i] that by blast
    with that have "\<not> j < length a" by simp
    with that show ?thesis using right by blast
  qed
  have 3: "ord ! i < ord ! j"
    if "i < j" "j < length ord" "isna (items ! (ord ! i))" "isna (items ! (ord ! j))" for i j
  proof -
    have i: "\<not> i < length a" using left [of i] that by blast
    have j: "\<not> j < length a" using left [of j] that by blast
    have "i - length a < j - length a" "j - length a < length nn"
      using i j that by (simp_all add: order)
    then have "nn ! (i - length a) < nn ! (j - length a)"
      unfolding nn_def by (rule nan_positions_ascend)
    with i j show ?thesis by (simp add: order nth_append)
  qed
  from 1 2 3 show ?thesis unfolding ord_def by blast
qed

lemma isna_sort_key: "isna (sort_key x) = isna_num x"
  by (cases x) (simp_all add: isna_def)

text \<open>
  Claim C2, as amended. The table that the Normalizer/Ranker returns is ordered by
  \<open>yearHigh\<close> descending: of two adjacent rows that both have a \<open>yearHigh\<close>, the first
  has the greater or equal one; every row without \<open>yearHigh\<close> comes after every row
  with one; and the rows without \<open>yearHigh\<close> keep the order they had in the merged
  frame. The table holds every row of the frame once, under the position it had
  there. Nothing is said on the order of rows with an equal \<open>yearHigh\<close>: it is the one
  that the library's sort, which is not stable, happens to give.
\<close>

theorem ranked_by_yearHigh:
  assumes "is_argsort argsort" and "get_stock_data_body to_number rnd argsort df = Inr out"
  shows "(\<forall>i. Suc i < length out \<and> \<not> isna_num (yearHigh (snd (out ! i))) \<and>
              \<not> isna_num (yearHigh (snd (out ! Suc i))) \<longrightarrow>
              fle (sort_key (yearHigh (snd (out ! Suc i)))) (sort_key (yearHigh (snd (out ! i))))) \<and>
         (\<forall>i j. i < j \<and> j < length out \<and> isna_num (yearHigh (snd (out ! i))) \<longrightarrow>
              isna_num (yearHigh (snd (out ! j)))) \<and>
         (\<forall>i j. i < j \<and> j < length out \<and> isna_num (yearHigh (snd (out ! i))) \<and>
              isna_num (yearHigh (snd (out ! j))) \<longrightarrow>
              fst (out ! i) < fst (out ! j)) \<and>
         mset (map fst out) = mset [0..<length (rows df)] \<and>
         (\<forall>(i, r) \<in> set out. r = normalize_row to_number rnd df (rows df ! i))"
proof -
  define rs where "rs = map (normalize_row to_number rnd df) (rows df)"
  define items where "items = map (\<lambda>r. sort_key (yearHigh r)) rs"
  define ord where "ord = nargsort argsort items"
  have cols: "set numeric_columns \<union> set selected_columns \<subseteq> set (columns df)"
    using assms(2) body_failure [of df to_number rnd argsort] by fastforce
  have out: "out = map (\<lambda>i. (i, rs ! i)) ord"
    using assms(2) body_success [OF cols, of to_number rnd argsort]
    by (simp add: rs_def items_def ord_def)
  have len: "length out = length ord" by (simp add: out)
  have range: "ord ! k < length rs" if "k < length ord" for k
  proof -
    have "ord ! k \<in># mset ord" using that by simp
    then have "ord ! k \<in> set [0..<length items]"
      using nargsort_mset [OF assms(1), of items] unfolding ord_def by (metis set_mset_mset)
    then show ?thesis by (simp add: items_def)
  qed
  have label: "fst (out ! k) = ord ! k" if "k < length ord" for k
    using that by (simp add: out)
  have key: "sort_key (yearHigh (snd (out ! k))) = items ! (ord ! k)" if "k < length ord" for k
    using that range [OF that] by (simp add: out items_def)
  note r = nargsort_ranked [OF assms(1), of items, folded ord_def]
  have 1: "fle (sort_key (yearHigh (snd (out ! Suc i)))) (sort_key (yearHigh (snd (out ! i))))"
    if "Suc i < length out" "\<not> isna_num (yearHigh (snd (out ! i)))"
      "\<not> isna_num (yearHigh (snd (out ! Suc i)))" for i
  proof -
    have "Suc i < length ord" "i < length ord" using that len by simp_all
    then show ?thesis using r that by (simp add: isna_sort_key [symmetric] key)
  qed
  have 2: "isna_num (yearHigh (snd (out ! j)))"
    if "i < j" "j < length out" "isna_num (yearHigh (snd (out ! i)))" for i j
  proof -
    have "j < length ord" "i < length ord" using that len by simp_all
    moreover from this have "isna (items ! (ord ! i))" using that by (simp add: isna_sort_key [symmetric] key)
    ultimately show ?thesis using r that(1) by (simp add: isna_sort_key [symmetric] key)
  qed
  have 3: "fst (out ! i) < fst (out ! j)"
    if "i < j" "j < length out" "isna_num (yearHigh (snd (out ! i)))"
      "isna_num (yearHigh (snd (out ! j)))" for i j
  proof -
    have "j < length ord" "i < length ord" using that len by simp_all
    moreover from this have "isna (items ! (ord ! i))" "isna (items ! (ord ! j))"
      using that by (simp_all add: isna_sort_key [symmetric] key)
    ultimately show ?thesis using r that(1) by (simp add: label)
  qed
  have 4: "\<forall>(i, r) \<in> set out. r = normalize_row to_number rnd df (rows df ! i)"
    using body_rows [OF assms] by blast
  from 1 2 3 4 body_labels [OF assms] show ?thesis by blast
qed

theorem ranked_by_yearHigh_witness:
  "is_argsort stable_argsort \<and>
   get_stock_data_body digits_to_number ex_round stable_argsort ex_frame = Inr ex_table \<and>
   map (\<lambda>(i, r). (i, yearHigh r)) ex_table = [(2, Float64 (Fin 150)), (0, Float64 (Fin 100)), (1, Float64 NaN), (3, Float64 NaN)] \<and>
   fle (sort_key (yearHigh (snd (ex_table ! Suc 0)))) (sort_key (yearHigh (snd (ex_table ! 0)))) \<and>
   isna_num (yearHigh (snd (ex_table ! 2))) \<and> isna_num (yearHigh (snd (ex_table ! 3))) \<and>
   fst (ex_table ! 2) < fst (ex_table ! 3)"
proof -
  note t = ranked_by_yearHigh [OF is_argsort_stable_argsort ex_frame_eval]
  have len: "length ex_table = 4" by (simp add: ex_table_def)
  have keys: "map (\<lambda>(i, r). (i, yearHigh r)) ex_table =
      [(2, Float64 (Fin 150)), (0, Float64 (Fin 100)), (1, Float64 NaN), (3, Float64 NaN)]"
    by (simp add: ex_table_def)
  have k0: "\<not> isna_num (yearHigh (snd (ex_table ! 0)))" "\<not> isna_num (yearHigh (snd (ex_table ! Suc 0)))"
    and k2: "isna_num (yearHigh (snd (ex_table ! 2)))"
    by (simp_all add: ex_table_def isna_def)
  from t have "Suc 0 < length ex_table \<and> \<not> isna_num (yearHigh (snd (ex_table ! 0))) \<and>
      \<not> isna_num (yearHigh (snd (ex_table ! Suc 0))) \<longrightarrow>
      fle (sort_key (yearHigh (snd (ex_table ! Suc 0)))) (sort_key (yearHigh (snd (ex_table ! 0))))"
    by blast
  with len k0 have 1: "fle (sort_key (yearHigh (snd (ex_table ! Suc 0)))) (sort_key (yearHigh (snd (ex_table ! 0))))"
    by simp
  from t have "(2::nat) < 3 \<and> 3 < length ex_table \<and> isna_num (yearHigh (snd (ex_table ! 2))) \<longrightarrow>
      isna_num (yearHigh (snd (ex_table ! 3)))"
    by blast
  with len k2 have 2: "isna_num (yearHigh (snd (ex_table ! 3)))" by simp
  from t have "(2::nat) < 3 \<and> 3 < length ex_table \<and> isna_num (yearHigh (snd (ex_table ! 2))) \<and>
      isna_num (yearHigh (snd (ex_table ! 3))) \<longrightarrow> fst (ex_table ! 2) < fst (ex_table ! 3)"
    by blast
  with len k2 2 have 3: "fst (ex_table ! 2) < fst (ex_table ! 3)" by simp
  from 1 2 3 k2 keys is_argsort_stable_argsort ex_frame_eval show ?thesis by simp
qed

text \<open>
  The claim as stated also keeps rows with an equal \<open>yearHigh\<close> in their original
  order. With numpy's quicksort it fails on the eighteen tied rows of \<open>tied_frame\<close>:
  the range is longer than \<open>SMALL_QUICKSORT + 1\<close>, the partition swaps positions with
  equal values, and the rows come out under the labels 0, 1, 16, 15, \<dots>, 2, 17.
\<close>

theorem ranked_ties_counterexample:
  "(case get_stock_data_body digits_to_number ex_round numpy_argsort tied_frame of
      Inl e \<Rightarrow> []
    | Inr out \<Rightarrow> map (\<lambda>(i, r). (i, yearHigh r)) out) =
   map (\<lambda>i. (i, Float64 (Fin 100))) [0, 1, 16, 15, 14, 13, 12, 11, 10, 9, 8, 7, 6, 5, 4, 3, 2, 17]"
  by code_simp

section \<open>Properties of the caches and of the export\<close>

lemma get_stock_data_hit: "lru s = Some t \<Longrightarrow> get_stock_data to_number rnd argsort world s = (Inr t, s)"
  by (simp add: get_stock_data_def)

lemma update_table_hit:
  "lru s = Some t \<Longrightarrow> update_table to_number rnd argsort world None n s = (Inr t, s)"
  by (simp add: update_table_def get_stock_data_hit)

lemma get_stock_data_fills:
  assumes "get_stock_data to_number rnd argsort world s = (Inr t, s')"
  shows "lru s' = Some t"
proof (cases "lru s")
  case None
  with assms show ?thesis
    by (auto simp: get_stock_data_def split: prod.splits sum.splits)
next
  case (Some t')
  with assms show ?thesis by (simp add: get_stock_data_def)
qed

lemma run_cached:
  assumes "lru s = Some t"
  shows "run to_number rnd argsort world evs s = replicate (length (filter (\<lambda>e. e = Call) evs)) (Inr t)"
  using assms
proof (induction evs arbitrary: s)
  case Nil
  then show ?case by simp
next
  case (Cons ev evs)
  show ?case
  proof (cases ev)
    case (Tick d)
    have "lru (s\<lparr>clock := clock s + d\<rparr>) = Some t" using Cons.prems by simp
    then show ?thesis using Cons.IH Tick by simp
  next
    case Call
    then show ?thesis
      using Cons.IH [OF Cons.prems] get_stock_data_hit [OF Cons.prems] by simp
  qed
qed

lemma ex_first_call:
  "get_stock_data digits_to_number ex_round stable_argsort ex_world fresh_process = (Inr ex_table, warm_process)"
proof -
  have "get_all_indices_data ex_world fresh_process =
      (Inr ex_frame, fresh_process\<lparr>memo := Some (25, ex_frame), requests := map url_of indices\<rparr>)"
    by (simp add: get_all_indices_data_def fresh_process_def ex_world_def ex_fetch
        CACHE_TIMEOUT_def)
  then show ?thesis
    by (simp add: get_stock_data_def ex_frame_eval warm_process_def fresh_process_def)
qed

text \<open>
  Claim C9. Once a call of \<open>get_stock_data\<close> has returned a table, every later call in
  the same process returns that table, however much time passes between the calls and
  whatever the provider would answer by then: the slot of the \<open>lru_cache\<close> is never
  cleared, so neither the expiry of the Flask cache after 25 seconds nor the refresh
  every 60 seconds lets a later call see another table.
\<close>

theorem lru_never_invalidated:
  assumes "get_stock_data to_number rnd argsort world s = (Inr t, s')"
  shows "list_all (\<lambda>r. r = Inr t) (run to_number' rnd' argsort' world' evs s') \<and>
         length (run to_number' rnd' argsort' world' evs s') = length (filter (\<lambda>e. e = Call) evs)"
  using run_cached [OF get_stock_data_fills [OF assms]]
  by (simp add: list_all_iff)

text \<open>
  In the example the provider has no records any more after 30 seconds, and a process
  started then gets a \<open>KeyError\<close>; the process started before still returns its first
  table after 60 and after 3660 seconds.
\<close>

theorem lru_never_invalidated_witness:
  "get_stock_data digits_to_number ex_round stable_argsort ex_world fresh_process =
     (Inr ex_table, warm_process) \<and>
   run digits_to_number ex_round stable_argsort ex_world [Tick 60, Call, Tick 3600, Call] warm_process =
     [Inr ex_table, Inr ex_table] \<and>
   fst (get_stock_data digits_to_number ex_round stable_argsort ex_world (fresh_process\<lparr>clock := 60\<rparr>)) =
     Inl (KeyError ''totalTradedVolume'')"
proof -
  have "get_all_indices_data ex_world (fresh_process\<lparr>clock := 60\<rparr>) =
      (Inr empty_frame,
       fresh_process\<lparr>clock := 60, memo := Some (85, empty_frame), requests := map url_of indices\<rparr>)"
    by (simp add: get_all_indices_data_def fresh_process_def ex_world_def CACHE_TIMEOUT_def
        get_all_indices_data_body_def indices_def empty_frame_def concat_frames_def
        setitem_scalar_def DataFrame_def)
  moreover have "get_stock_data_body digits_to_number ex_round stable_argsort empty_frame =
      Inl (KeyError ''totalTradedVolume'')"
    by (simp add: get_stock_data_body_def empty_frame_def indices_def concat_frames_def
        setitem_scalar_def DataFrame_def numeric_columns_def)
  ultimately have later: "fst (get_stock_data digits_to_number ex_round stable_argsort ex_world
      (fresh_process\<lparr>clock := 60\<rparr>)) = Inl (KeyError ''totalTradedVolume'')"
    by (simp add: get_stock_data_def fresh_process_def)
  have "run digits_to_number ex_round stable_argsort ex_world [Tick 60, Call, Tick 3600, Call] warm_process =
      [Inr ex_table, Inr ex_table]"
    using lru_never_invalidated [OF ex_first_call,
        of digits_to_number ex_round stable_argsort ex_world "[Tick 60, Call, Tick 3600, Call]"]
    by (cases "run digits_to_number ex_round stable_argsort ex_world [Tick 60, Call, Tick 3600, Call] warm_process")
       (auto simp: length_Suc_conv)
  with later ex_first_call show ?thesis by simp
qed

text \<open>
  Claim C4. The export callback \<open>download_as_excel\<close> gives the file the name
  \<open>NSE_Stocks_Sorted_by_52_Week_High.xlsx\<close>, but it passes no \<open>sheet_name\<close> to
  \<open>to_excel\<close>, so the sheet has pandas' default name \<open>Sheet1\<close>, not \<open>Stocks\<close>. Only
  \<open>generate_excel_download_link\<close>, which nothing calls, names the sheet \<open>Stocks\<close>.
\<close>

theorem export_uses_default_sheet:
  "download_as_excel digits_to_number ex_round stable_argsort ex_world 1 warm_process =
     (Inr \<lparr>filename = ''NSE_Stocks_Sorted_by_52_Week_High.xlsx'',
           content = \<lparr>sheet_name = ''Sheet1'', with_index = False, cells = ex_table\<rparr>\<rparr>,
      warm_process) \<and>
   generate_excel_download_link ex_table =
     \<lparr>sheet_name = ''Stocks'', with_index = False, cells = ex_table\<rparr>"
  by (simp add: download_as_excel_def get_stock_data_def warm_process_def to_excel_def
      default_sheet_name_def generate_excel_download_link_def)

end
